theory Spec2Isabelle
  imports Main "HOL-Library.Word" "HOL-Library.Sublist"
begin

section \<open>JavaScript strings and values\<close>

text \<open>
  A JavaScript string is a sequence of UTF-16 code units; \<open>length\<close>, indexing,
  \<open>slice\<close>, \<open>startsWith\<close> and \<open>endsWith\<close> all count code units. The literal
  \<open>js ''abc''\<close> is the string of the code units of an ASCII literal.
\<close>

type_synonym jschar = "16 word"
type_synonym jsstring = "jschar list"

definition js :: "string \<Rightarrow> jsstring" where
  "js s = map of_char s"

text \<open>
  The values an entry point can be called with. A function value carries its name;
  \<open>JSObject\<close> stands for a plain object. Numbers are integers here: the entry points only
  test a number's type and truthiness.
\<close>

datatype jsvalue =
    JSUndefined
  | JSNull
  | JSBoolean bool
  | JSNumber int
  | JSString jsstring
  | JSFunction jsstring
  | JSObject

fun truthy :: "jsvalue \<Rightarrow> bool" where
  "truthy JSUndefined = False"
| "truthy JSNull = False"
| "truthy (JSBoolean b) = b"
| "truthy (JSNumber k) = (k \<noteq> 0)"
| "truthy (JSString s) = (s \<noteq> [])"
| "truthy (JSFunction f) = True"
| "truthy JSObject = True"

fun is_string :: "jsvalue \<Rightarrow> bool" where
  "is_string (JSString s) = True"
| "is_string v = False"

text \<open>\<open>xs.slice(b, e)\<close> of arrays and strings: a negative index counts from the end, and
  both indices are clamped to the length.\<close>

definition slice :: "'a list \<Rightarrow> int \<Rightarrow> int \<Rightarrow> 'a list" where
  "slice xs b e =
     (let len = int (length xs);
          from = (if b < 0 then max (len + b) 0 else min b len);
          to = (if e < 0 then max (len + e) 0 else min e len)
      in take (nat (to - from)) (drop (nat from) xs))"

fun join :: "jsstring \<Rightarrow> jsstring list \<Rightarrow> jsstring" where
  "join sep [] = []"
| "join sep [x] = x"
| "join sep (x # y # rest) = x @ sep @ join sep (y # rest)"

definition startsWith :: "jsstring \<Rightarrow> jsstring \<Rightarrow> bool" where
  "startsWith s w = prefix w s"

definition endsWith :: "jsstring \<Rightarrow> jsstring \<Rightarrow> bool" where
  "endsWith s w = suffix w s"

text \<open>\<open>/[...]/.test(s)\<close> for a character class: some code unit of \<open>s\<close> is in the class.\<close>

definition regex_test :: "(jschar \<Rightarrow> bool) \<Rightarrow> jsstring \<Rightarrow> bool" where
  "regex_test cls s = list_ex cls s"

text \<open>The code units \<open>String.prototype.trim\<close> strips (ECMAScript WhiteSpace and
  LineTerminator).\<close>

definition isWhiteSpace :: "jschar \<Rightarrow> bool" where
  "isWhiteSpace c =
     (c \<in> {0x0009, 0x000A, 0x000B, 0x000C, 0x000D, 0x0020, 0x00A0, 0x1680,
            0x2028, 0x2029, 0x202F, 0x205F, 0x3000, 0xFEFF}
      \<or> (0x2000 \<le> c \<and> c \<le> 0x200A))"

definition trim :: "jsstring \<Rightarrow> jsstring" where
  "trim s = rev (dropWhile isWhiteSpace (rev (dropWhile isWhiteSpace s)))"

section \<open>Unicode data supplied by the engine\<close>

text \<open>
  The general category of a code point (\<open>\p{L}\<close>, \<open>\p{M}\<close>, \<open>\p{N}\<close>, anything else) and
  \<open>String.prototype.toLowerCase\<close> come from the JavaScript engine's Unicode tables, not
  from the repository: they are parameters of the model.
\<close>

datatype category = Letter | Mark | Numeric | Other

record unicode =
  general_category :: "nat \<Rightarrow> category"
  toLowerCase :: "jsstring \<Rightarrow> jsstring"

text \<open>
  The tables restricted to the Basic Latin and Thai blocks, for evaluating examples whose
  characters all lie in these two blocks. Code points outside them are not classified by
  this table (it answers \<open>Other\<close>) and are left alone by its lowercasing.
\<close>

definition latin_thai_category :: "nat \<Rightarrow> category" where
  "latin_thai_category cp =
     (if (0x41 \<le> cp \<and> cp \<le> 0x5A) \<or> (0x61 \<le> cp \<and> cp \<le> 0x7A) then Letter
      else if 0x30 \<le> cp \<and> cp \<le> 0x39 then Numeric
      else if (0x0E01 \<le> cp \<and> cp \<le> 0x0E30) \<or> cp = 0x0E32 \<or> cp = 0x0E33
              \<or> (0x0E40 \<le> cp \<and> cp \<le> 0x0E46) then Letter
      else if cp = 0x0E31 \<or> (0x0E34 \<le> cp \<and> cp \<le> 0x0E3A)
              \<or> (0x0E47 \<le> cp \<and> cp \<le> 0x0E4E) then Mark
      else if 0x0E50 \<le> cp \<and> cp \<le> 0x0E59 then Numeric
      else Other)"

definition ascii_lower :: "jsstring \<Rightarrow> jsstring" where
  "ascii_lower s = map (\<lambda>c. if 0x41 \<le> c \<and> c \<le> 0x5A then c + 0x20 else c) s"

definition basic_unicode :: unicode where
  "basic_unicode = \<lparr>general_category = latin_thai_category, toLowerCase = ascii_lower\<rparr>"

section \<open>languages/thai.js\<close>

subsection \<open>simpleTokenize\<close>

definition thaiPattern :: "jschar \<Rightarrow> bool" where
  "thaiPattern c = (0x0E00 \<le> c \<and> c \<le> 0x0E7F)"

definition thaiVowelPattern :: "jschar \<Rightarrow> bool" where
  "thaiVowelPattern c = ((0x0E30 \<le> c \<and> c \<le> 0x0E3A) \<or> (0x0E40 \<le> c \<and> c \<le> 0x0E45))"

definition thaiToneMarkPattern :: "jschar \<Rightarrow> bool" where
  "thaiToneMarkPattern c = (0x0E47 \<le> c \<and> c \<le> 0x0E4E)"

text \<open>
  The \<open>for\<close> loop over the indices of \<open>text\<close>: the first argument is the part of the text
  from index \<open>i\<close> on, so its head is \<open>text[i]\<close> and \<open>nextChar\<close> is the head of its tail
  (the empty string at the last index).
\<close>

fun simple_loop :: "jsstring \<Rightarrow> jsstring list \<Rightarrow> jsstring \<Rightarrow> jsstring list" where
  "simple_loop [] tokens currentToken =
     (if currentToken \<noteq> [] then tokens @ [currentToken] else tokens)"
| "simple_loop (c # rest) tokens currentToken =
     (if c = 0x20 \<or> \<not> regex_test thaiPattern [c] then
        (let tokens1 = (if currentToken \<noteq> [] then tokens @ [currentToken] else tokens);
             tokens2 = (if trim [c] \<noteq> [] then tokens1 @ [[c]] else tokens1)
         in simple_loop rest tokens2 [])
      else
        (let currentToken1 = currentToken @ [c];
             nextChar = take 1 rest
         in if \<not> regex_test thaiVowelPattern [c] \<and> \<not> regex_test thaiToneMarkPattern [c]
               \<and> regex_test thaiVowelPattern nextChar
            then simple_loop rest (tokens @ [currentToken1]) []
            else simple_loop rest tokens currentToken1))"

definition simpleTokenize :: "jsstring \<Rightarrow> jsstring list" where
  "simpleTokenize text = simple_loop text [] []"

subsection \<open>dictionaryTokenize\<close>

text \<open>
  The dictionary is a \<open>Set\<close> of strings; the list holds its entries in insertion order,
  the order \<open>for (const word of dictionary)\<close> visits them in. \<open>None\<close> is \<open>null\<close>.
\<close>

fun skip_spaces :: "jsstring \<Rightarrow> jsstring" where
  "skip_spaces [] = []"
| "skip_spaces (c # cs) = (if c = 0x20 then skip_spaces cs else c # cs)"

definition scan_step :: "jsstring \<Rightarrow> jsstring \<Rightarrow> jsstring \<times> bool \<Rightarrow> jsstring \<times> bool" where
  "scan_step remaining word st =
     (case st of (longestWord, found) \<Rightarrow>
        if startsWith remaining word \<and> length word > length longestWord
        then (word, True) else (longestWord, found))"

definition longest_scan :: "jsstring \<Rightarrow> jsstring list \<Rightarrow> jsstring \<times> bool" where
  "longest_scan remaining dictionary = fold (scan_step remaining) dictionary ([], False)"

text \<open>One iteration of the \<open>while\<close> loop: the token pushed and the new \<open>remaining\<close>.\<close>

definition dict_body :: "jsstring list \<Rightarrow> jsstring \<Rightarrow> jsstring \<times> jsstring" where
  "dict_body dictionary remaining =
     (case longest_scan remaining dictionary of (longestWord, found) \<Rightarrow>
        if found then (longestWord, skip_spaces (drop (length longestWord) remaining))
        else (take 1 remaining, skip_spaces (drop 1 remaining)))"

text \<open>The \<open>while (remaining.length > 0)\<close> loop; \<open>None\<close> is a loop that never ends.\<close>

partial_function (option) dict_while ::
  "jsstring list \<Rightarrow> jsstring \<Rightarrow> jsstring list \<Rightarrow> jsstring list option" where
  "dict_while dictionary remaining tokens =
     (if length remaining > 0 then
        (case dict_body dictionary remaining of
           (token, remaining') \<Rightarrow> dict_while dictionary remaining' (tokens @ [token]))
      else Some tokens)"

declare dict_while.simps [code]

definition dictionaryTokenize :: "jsstring \<Rightarrow> jsstring list option \<Rightarrow> jsstring list option" where
  "dictionaryTokenize text dictionary =
     (if text = [] then Some []
      else case dictionary of
             None \<Rightarrow> Some (simpleTokenize text)
           | Some d \<Rightarrow> if d = [] then Some (simpleTokenize text) else dict_while d text [])"

section \<open>utils/stemmer.js\<close>

definition aeiou :: "jschar \<Rightarrow> bool" where
  "aeiou c = (c \<in> set (js ''aeiou''))"

definition step_1a :: "jsstring \<Rightarrow> jsstring" where
  "step_1a word =
     (if endsWith word (js ''sses'') then slice word 0 (- 2)
      else if endsWith word (js ''ies'') then slice word 0 (- 2)
      else if endsWith word (js ''ss'') then word
      else if endsWith word (js ''s'') then slice word 0 (- 1)
      else word)"

definition step_1b :: "jsstring \<Rightarrow> jsstring" where
  "step_1b word =
     (if endsWith word (js ''eed'') then slice word 0 (- 1)
      else if (endsWith word (js ''ed'') \<and> regex_test aeiou (slice word 0 (- 2)))
              \<or> (endsWith word (js ''ing'') \<and> regex_test aeiou (slice word 0 (- 3))) then
        (let word1 = (if endsWith word (js ''ed'') then slice word 0 (- 2) else slice word 0 (- 3))
         in if endsWith word1 (js ''at'') \<or> endsWith word1 (js ''bl'') \<or> endsWith word1 (js ''iz'')
            then word1 @ js ''e''
            else if length word1 > 2
                    \<and> word1 ! (length word1 - 1) = word1 ! (length word1 - 2)
                    \<and> [word1 ! (length word1 - 1)] \<notin> set [js ''l'', js ''s'', js ''z'']
            then slice word1 0 (- 1)
            else word1)
      else word)"

definition step_1c :: "jsstring \<Rightarrow> jsstring" where
  "step_1c word =
     (if endsWith word (js ''y'') \<and> length word > 2
         \<and> \<not> regex_test aeiou [word ! (length word - 2)]
      then slice word 0 (- 1) @ js ''i''
      else word)"

definition stemToken :: "unicode \<Rightarrow> jsvalue \<Rightarrow> jsstring" where
  "stemToken env token =
     (if \<not> truthy token \<or> \<not> is_string token then []
      else case token of
             JSString s \<Rightarrow> step_1c (step_1b (step_1a (toLowerCase env s)))
           | _ \<Rightarrow> [])"

section \<open>tokenizer.js\<close>

subsection \<open>The universal pattern\<close>

text \<open>
  \<open>/\p{L}+(?:\p{M}*\p{L}+)*|\p{N}+/gu\<close> runs over code points: under the \<open>u\<close> flag a high
  surrogate followed by a low surrogate is one code point. \<open>code_points\<close> cuts the string
  into the code units of each code point.
\<close>

definition isHighSurrogate :: "jschar \<Rightarrow> bool" where
  "isHighSurrogate c = (0xD800 \<le> c \<and> c \<le> 0xDBFF)"

definition isLowSurrogate :: "jschar \<Rightarrow> bool" where
  "isLowSurrogate c = (0xDC00 \<le> c \<and> c \<le> 0xDFFF)"

fun code_points :: "jsstring \<Rightarrow> jsstring list" where
  "code_points [] = []"
| "code_points [c] = [[c]]"
| "code_points (h # l # rest) =
     (if isHighSurrogate h \<and> isLowSurrogate l then [h, l] # code_points rest
      else [h] # code_points (l # rest))"

definition code_point_value :: "jsstring \<Rightarrow> nat" where
  "code_point_value u =
     (case u of
        [h, l] \<Rightarrow> 0x10000 + (unat h - 0xD800) * 0x400 + (unat l - 0xDC00)
      | [c] \<Rightarrow> unat c
      | _ \<Rightarrow> 0)"

definition has_category :: "unicode \<Rightarrow> category \<Rightarrow> jsstring \<Rightarrow> bool" where
  "has_category env k u = (general_category env (code_point_value u) = k)"

text \<open>
  \<open>(?:\p{M}*\p{L}+)*\<close>, greedy: each round takes every mark and then every letter that
  follows; a round with no letter after the marks fails and the marks are given back.
  The result is the code points matched and the ones left.
\<close>

function word_groups :: "unicode \<Rightarrow> jsstring list \<Rightarrow> jsstring list \<times> jsstring list" where
  "word_groups env cps =
     (let after_marks = dropWhile (has_category env Mark) cps;
          letters = takeWhile (has_category env Letter) after_marks
      in if letters = [] then ([], cps)
         else (case word_groups env (dropWhile (has_category env Letter) after_marks) of
                 (grp, rest) \<Rightarrow> (takeWhile (has_category env Mark) cps @ letters @ grp, rest)))"
  by pat_completeness auto
termination
proof (relation "measure (\<lambda>(env, cps). length cps)")
  show "wf (measure (\<lambda>(env, cps). length cps))" by simp
next
  fix env :: unicode and cps after_marks letters :: "jsstring list"
  assume a: "after_marks = dropWhile (has_category env Mark) cps"
    and l: "letters = takeWhile (has_category env Letter) after_marks"
    and ne: "letters \<noteq> []"
  from l ne obtain x xs where "after_marks = x # xs" "has_category env Letter x"
    by (cases after_marks) (auto split: if_splits)
  then have "length (dropWhile (has_category env Letter) after_marks) < length after_marks"
    by (simp add: length_dropWhile_le less_Suc_eq_le)
  also have "length after_marks \<le> length cps"
    unfolding a by (rule length_dropWhile_le)
  finally show "((env, dropWhile (has_category env Letter) after_marks), (env, cps))
      \<in> measure (\<lambda>(env, cps). length cps)"
    by simp
qed

declare word_groups.simps [simp del]

text \<open>The match that starts at the head of \<open>cps\<close>, if any: the code points matched (never
  empty) and the ones left. The first alternative is tried first.\<close>

definition match_here :: "unicode \<Rightarrow> jsstring list \<Rightarrow> (jsstring list \<times> jsstring list) option" where
  "match_here env cps =
     (if takeWhile (has_category env Letter) cps \<noteq> [] then
        (case word_groups env (dropWhile (has_category env Letter) cps) of
           (grp, rest) \<Rightarrow> Some (takeWhile (has_category env Letter) cps @ grp, rest))
      else if takeWhile (has_category env Numeric) cps \<noteq> [] then
        Some (takeWhile (has_category env Numeric) cps, dropWhile (has_category env Numeric) cps)
      else None)"

lemma word_groups_rest_le: "length (snd (word_groups env cps)) \<le> length cps"
proof (induction env cps rule: word_groups.induct)
  case (1 env cps)
  let ?after = "dropWhile (has_category env Mark) cps"
  let ?letters = "takeWhile (has_category env Letter) ?after"
  let ?next = "dropWhile (has_category env Letter) ?after"
  show ?case
  proof (cases "?letters = []")
    case True
    then show ?thesis by (subst word_groups.simps) (simp add: Let_def)
  next
    case False
    then have "length (snd (word_groups env ?next)) \<le> length ?next"
      by (rule "1.IH"[OF refl refl])
    also have "\<dots> \<le> length ?after" by (rule length_dropWhile_le)
    also have "\<dots> \<le> length cps" by (rule length_dropWhile_le)
    finally show ?thesis
      using False by (subst word_groups.simps) (auto simp: Let_def split: prod.splits)
  qed
qed

lemma match_here_rest_less:
  assumes "match_here env cps = Some (m, rest)"
  shows "length rest < length cps"
proof (cases "takeWhile (has_category env Letter) cps \<noteq> []")
  case True
  then obtain x xs where c: "cps = x # xs" "has_category env Letter x"
    by (cases cps) (auto split: if_splits)
  from True assms have "rest = snd (word_groups env (dropWhile (has_category env Letter) cps))"
    by (auto simp: match_here_def split: prod.splits)
  then have "length rest \<le> length (dropWhile (has_category env Letter) cps)"
    by (simp add: word_groups_rest_le)
  also have "\<dots> < length cps"
    using c by (simp add: length_dropWhile_le less_Suc_eq_le)
  finally show ?thesis .
next
  case False
  with assms have n: "takeWhile (has_category env Numeric) cps \<noteq> []"
    and r: "rest = dropWhile (has_category env Numeric) cps"
    by (auto simp: match_here_def split: if_splits)
  from n obtain x xs where c: "cps = x # xs" "has_category env Numeric x"
    by (cases cps) (auto split: if_splits)
  then show ?thesis
    unfolding r by (simp add: length_dropWhile_le less_Suc_eq_le)
qed

text \<open>\<open>text.matchAll\<close>: the next match is looked for where the last one ended; a position
  with no match is passed by one code point.\<close>

function match_all :: "unicode \<Rightarrow> jsstring list \<Rightarrow> jsstring list" where
  "match_all env [] = []"
| "match_all env (u # us) =
     (case match_here env (u # us) of
        Some (m, rest) \<Rightarrow> concat m # match_all env rest
      | None \<Rightarrow> match_all env us)"
  by pat_completeness auto
termination
  by (relation "measure (\<lambda>(env, cps). length cps)") (auto dest: match_here_rest_less)

definition universalTokenize :: "unicode \<Rightarrow> jsstring \<Rightarrow> jsstring list" where
  "universalTokenize env text = match_all env (code_points text)"

subsection \<open>The Tokenizer class\<close>

record tokenizer_options =
  lowercase :: bool
  removeStopwords :: bool
  customStopwords :: "jsvalue list"
  stemming :: bool
  language :: jsstring
  thaiDictionary :: "jsstring list option"

record tokenizer =
  options :: tokenizer_options
  stopwords :: "jsstring set"

text \<open>The argument of the constructor: \<open>None\<close> is a property left \<open>undefined\<close>.\<close>

record constructor_options =
  given_lowercase :: "bool option"
  given_removeStopwords :: "bool option"
  given_customStopwords :: "jsvalue list option"
  given_stemming :: "bool option"
  given_language :: "jsstring option"
  given_thaiDictionary :: "jsstring list option"

definition default_stopwords :: "jsstring list" where
  "default_stopwords = map js
  [
    ''a'', ''an'', ''the'', ''and'', ''or'', ''but'', ''is'', ''are'', ''was'', ''were'',
    ''be'', ''been'', ''being'', ''in'', ''on'', ''at'', ''to'', ''for'', ''with'', ''by'',
    ''about'', ''against'', ''between'', ''into'', ''through'', ''during'', ''before'',
    ''after'', ''above'', ''below'', ''from'', ''up'', ''down'', ''of'', ''off'', ''over'',
    ''under'', ''again'', ''further'', ''then'', ''once'', ''here'', ''there'', ''when'',
    ''where'', ''why'', ''how'', ''all'', ''any'', ''both'', ''each'', ''few'', ''more'',
    ''most'', ''other'', ''some'', ''such'', ''no'', ''nor'', ''not'', ''only'', ''own'',
    ''same'', ''so'', ''than'', ''too'', ''very'', ''i'', ''me'', ''my'', ''myself'',
    ''we'', ''our'', ''ours'', ''ourselves'', ''you'', ''your'', ''yours'', ''yourself'',
    ''yourselves'', ''he'', ''him'', ''his'', ''himself'', ''she'', ''her'', ''hers'',
    ''herself'', ''it'', ''its'', ''itself'', ''they'', ''them'', ''their'', ''theirs'',
    ''themselves'', ''what'', ''which'', ''who'', ''whom'', ''this'', ''that'', ''these'',
    ''those'', ''am'', ''have'', ''has'', ''had'', ''having'', ''do'', ''does'', ''did'',
    ''doing'', ''would'', ''should'', ''could'', ''ought'', ''i'm'', ''you're'', ''he's'',
    ''she's'', ''it's'', ''we're'', ''they're'', ''i've'', ''you've'', ''we've'',
    ''they've'', ''i'd'', ''you'd'', ''he'd'', ''she'd'', ''we'd'', ''they'd'', ''i'll'',
    ''you'll'', ''he'll'', ''she'll'', ''we'll'', ''they'll'', ''isn't'', ''aren't'',
    ''wasn't'', ''weren't'', ''hasn't'', ''haven't'', ''hadn't'', ''doesn't'', ''don't'',
    ''didn't'', ''won't'', ''wouldn't'', ''shan't'', ''shouldn't'', ''can't'', ''cannot'',
    ''couldn't'', ''mustn't'', ''let's'', ''that's'', ''who's'', ''what's'', ''here's'',
    ''there's'', ''when's'', ''where's'', ''why's'', ''how's''
  ]"

definition add_stopword :: "unicode \<Rightarrow> jsvalue \<Rightarrow> jsstring set \<Rightarrow> jsstring set" where
  "add_stopword env word st =
     (case word of JSString w \<Rightarrow> insert (toLowerCase env w) st | _ \<Rightarrow> st)"

text \<open>
  \<open>setupStopwords\<close>. The files \<open>data/stopwords/<language>.json\<close> are not part of the
  sources at hand: \<open>language_file\<close> is what \<open>require\<close> finds for a language code,
  \<open>None\<close> when it throws or the file holds no array.
\<close>

definition setupStopwords ::
  "unicode \<Rightarrow> (jsstring \<Rightarrow> jsstring list option) \<Rightarrow> tokenizer_options \<Rightarrow> jsstring set" where
  "setupStopwords env language_file opts =
     (let base = set default_stopwords;
          with_language =
            (if language opts \<noteq> js ''en'' then
               (case language_file (language opts) of
                  Some ws \<Rightarrow> fold (\<lambda>w. insert (toLowerCase env w)) ws base
                | None \<Rightarrow> base)
             else base)
      in fold (add_stopword env) (customStopwords opts) with_language)"

definition new_Tokenizer ::
  "unicode \<Rightarrow> (jsstring \<Rightarrow> jsstring list option) \<Rightarrow> constructor_options \<Rightarrow> tokenizer" where
  "new_Tokenizer env language_file given =
     (let opts = \<lparr>
            lowercase = (case given_lowercase given of Some b \<Rightarrow> b | None \<Rightarrow> True),
            removeStopwords = (case given_removeStopwords given of Some b \<Rightarrow> b | None \<Rightarrow> False),
            customStopwords = (case given_customStopwords given of Some ws \<Rightarrow> ws | None \<Rightarrow> []),
            stemming = (case given_stemming given of Some b \<Rightarrow> b | None \<Rightarrow> False),
            language = (case given_language given of
                          Some l \<Rightarrow> if l \<noteq> [] then l else js ''en''
                        | None \<Rightarrow> js ''en''),
            thaiDictionary = given_thaiDictionary given \<rparr>
      in \<lparr> options = opts, stopwords = setupStopwords env language_file opts \<rparr>)"

definition no_options :: constructor_options where
  "no_options = \<lparr> given_lowercase = None, given_removeStopwords = None,
     given_customStopwords = None, given_stemming = None, given_language = None,
     given_thaiDictionary = None \<rparr>"

subsection \<open>tokenize\<close>

definition stemmable_languages :: "jsstring list" where
  "stemmable_languages = map js [''en'', ''es'', ''fr'', ''it'', ''pt'', ''de'', ''nl'']"

definition segment :: "unicode \<Rightarrow> tokenizer \<Rightarrow> jsstring \<Rightarrow> jsstring list option" where
  "segment env t text =
     (if language (options t) = js ''th'' \<and> thaiDictionary (options t) \<noteq> None
      then dictionaryTokenize text (thaiDictionary (options t))
      else Some (universalTokenize env text))"

definition lowercase_stage :: "unicode \<Rightarrow> tokenizer \<Rightarrow> jsstring list \<Rightarrow> jsstring list" where
  "lowercase_stage env t tokens =
     (if lowercase (options t) \<and> language (options t) \<noteq> js ''th''
      then map (toLowerCase env) tokens else tokens)"

definition stopword_stage :: "unicode \<Rightarrow> tokenizer \<Rightarrow> jsstring list \<Rightarrow> jsstring list" where
  "stopword_stage env t tokens =
     (if removeStopwords (options t)
      then filter (\<lambda>token. toLowerCase env token \<notin> stopwords t) tokens else tokens)"

definition stemming_stage :: "unicode \<Rightarrow> tokenizer \<Rightarrow> jsstring list \<Rightarrow> jsstring list" where
  "stemming_stage env t tokens =
     (if stemming (options t) \<and> language (options t) \<in> set stemmable_languages
      then map (\<lambda>token. stemToken env (JSString token)) tokens else tokens)"

text \<open>\<open>None\<close> is a call that never returns; no path of \<open>tokenize\<close> throws.\<close>

definition tokenize :: "unicode \<Rightarrow> tokenizer \<Rightarrow> jsvalue \<Rightarrow> jsstring list option" where
  "tokenize env t v =
     (if \<not> truthy v \<or> \<not> is_string v then Some []
      else case v of
             JSString text \<Rightarrow>
               map_option (\<lambda>tokens. stemming_stage env t (stopword_stage env t (lowercase_stage env t tokens)))
                 (segment env t text)
           | _ \<Rightarrow> Some [])"

subsection \<open>ngramTokenize\<close>

function ngram_loop :: "jsstring list \<Rightarrow> int \<Rightarrow> int \<Rightarrow> jsstring list \<Rightarrow> jsstring list" where
  "ngram_loop tokens n i ngrams =
     (if i \<le> int (length tokens) - n
      then ngram_loop tokens n (i + 1) (ngrams @ [join (js '' '') (slice tokens i (i + n))])
      else ngrams)"
  by pat_completeness auto
termination
  by (relation "measure (\<lambda>(tokens, n, i, ngrams). nat (int (length tokens) - n - i + 1))") auto

declare ngram_loop.simps [simp del]

text \<open>The size \<open>n\<close> is an integer; \<open>None\<close> is an argument left out, which defaults to 2.\<close>

definition ngramTokenize ::
  "unicode \<Rightarrow> tokenizer \<Rightarrow> jsvalue \<Rightarrow> int option \<Rightarrow> jsstring list option" where
  "ngramTokenize env t v n_arg =
     (let n = (case n_arg of Some k \<Rightarrow> k | None \<Rightarrow> 2)
      in if \<not> truthy v \<or> \<not> is_string v \<or> n < 1 then Some []
         else map_option (\<lambda>tokens. ngram_loop tokens n 0 []) (tokenize env t v))"

subsection \<open>getTokenFrequency\<close>

text \<open>
  \<open>frequency\<close> is an object literal \<open>{}\<close>: the map holds its own properties, and a read of a
  name it does not own goes on to \<open>Object.prototype\<close>. These are the properties
  \<open>Object.prototype\<close> has in Node.js: the constructor \<open>Object\<close>, ten methods, and the
  accessor \<open>__proto__\<close>, whose getter answers \<open>Object.prototype\<close> itself.
\<close>

definition object_prototype_methods :: "jsstring list" where
  "object_prototype_methods = map js
     [''__defineGetter__'', ''__defineSetter__'', ''hasOwnProperty'', ''__lookupGetter__'',
      ''__lookupSetter__'', ''isPrototypeOf'', ''propertyIsEnumerable'', ''toString'',
      ''valueOf'', ''toLocaleString'']"

definition object_prototype_get :: "jsstring \<Rightarrow> jsvalue" where
  "object_prototype_get key =
     (if key = js ''constructor'' then JSFunction (js ''Object'')
      else if key \<in> set object_prototype_methods then JSFunction key
      else if key = js ''__proto__'' then JSObject
      else JSUndefined)"

definition get_property :: "(jsstring \<rightharpoonup> jsvalue) \<Rightarrow> jsstring \<Rightarrow> jsvalue" where
  "get_property obj key = (case obj key of Some v \<Rightarrow> v | None \<Rightarrow> object_prototype_get key)"

text \<open>An assignment to \<open>__proto__\<close> runs the setter of \<open>Object.prototype\<close>, which ignores
  a value that is neither an object nor \<open>null\<close> and creates no property.\<close>

definition set_property :: "(jsstring \<rightharpoonup> jsvalue) \<Rightarrow> jsstring \<Rightarrow> jsvalue \<Rightarrow> (jsstring \<rightharpoonup> jsvalue)" where
  "set_property obj key v =
     (if key = js ''__proto__'' \<and> v \<noteq> JSObject \<and> v \<noteq> JSNull then obj else obj(key \<mapsto> v))"

text \<open>\<open>(v || 0) + 1\<close>: a falsy \<open>v\<close> gives \<open>0 + 1\<close>; a number is added to; \<open>true\<close> counts as 1;
  anything else is turned into a string and \<open>"1"\<close> is appended. A built-in function prints as
  \<open>function name() { [native code] }\<close> in Node.js, a plain object as \<open>[object Object]\<close>.\<close>

definition or_zero_plus_one :: "jsvalue \<Rightarrow> jsvalue" where
  "or_zero_plus_one v =
     (if \<not> truthy v then JSNumber 1
      else case v of
             JSNumber k \<Rightarrow> JSNumber (k + 1)
           | JSBoolean b \<Rightarrow> JSNumber 2
           | JSString s \<Rightarrow> JSString (s @ js ''1'')
           | JSFunction f \<Rightarrow> JSString (js ''function '' @ f @ js ''() { [native code] }'' @ js ''1'')
           | _ \<Rightarrow> JSString (js ''[object Object]'' @ js ''1''))"

definition count_token :: "jsstring \<Rightarrow> (jsstring \<rightharpoonup> jsvalue) \<Rightarrow> (jsstring \<rightharpoonup> jsvalue)" where
  "count_token token frequency =
     set_property frequency token (or_zero_plus_one (get_property frequency token))"

definition getTokenFrequency ::
  "unicode \<Rightarrow> tokenizer \<Rightarrow> jsvalue \<Rightarrow> (jsstring \<rightharpoonup> jsvalue) option" where
  "getTokenFrequency env t v =
     map_option (\<lambda>tokens. fold count_token tokens Map.empty) (tokenize env t v)"

section \<open>The single-file copy of tokenizer.js\<close>

text \<open>
  The repository holds a second \<open>Tokenizer\<close> class, a single file that \<open>example.js\<close>,
  \<open>thai-example.js\<close> and \<open>universal-example.js\<close> load with \<open>require("./tokenizer")\<close>. Its
  segmentation methods \<open>simpleThaiTokenize\<close> and \<open>dictionaryThaiTokenize\<close> and its method
  \<open>stem\<close> have the bodies of \<open>simpleTokenize\<close>, \<open>dictionaryTokenize\<close> and \<open>stemToken\<close>;
  its constructor and the stemming guard of its \<open>tokenize\<close> differ.
\<close>

datatype js_error = TypeError

text \<open>The constructor adds every custom stopword with \<open>word.toLowerCase()\<close> and no type
  test: a word that is not a string throws.\<close>

fun standalone_add_stopwords ::
  "unicode \<Rightarrow> jsvalue list \<Rightarrow> jsstring set \<Rightarrow> js_error + jsstring set" where
  "standalone_add_stopwords env [] st = Inr st"
| "standalone_add_stopwords env (word # ws) st =
     (case word of
        JSString w \<Rightarrow> standalone_add_stopwords env ws (insert (toLowerCase env w) st)
      | _ \<Rightarrow> Inl TypeError)"

definition standalone_new_Tokenizer :: "unicode \<Rightarrow> constructor_options \<Rightarrow> js_error + tokenizer" where
  "standalone_new_Tokenizer env given =
     (let opts = \<lparr>
            lowercase = (case given_lowercase given of Some b \<Rightarrow> b | None \<Rightarrow> True),
            removeStopwords = (case given_removeStopwords given of Some b \<Rightarrow> b | None \<Rightarrow> False),
            customStopwords = (case given_customStopwords given of Some ws \<Rightarrow> ws | None \<Rightarrow> []),
            stemming = (case given_stemming given of Some b \<Rightarrow> b | None \<Rightarrow> False),
            language = (case given_language given of
                          Some l \<Rightarrow> if l \<noteq> [] then l else js ''en''
                        | None \<Rightarrow> js ''en''),
            thaiDictionary = given_thaiDictionary given \<rparr>
      in case standalone_add_stopwords env (customStopwords opts) (set default_stopwords) of
           Inl e \<Rightarrow> Inl e
         | Inr st \<Rightarrow> Inr \<lparr> options = opts, stopwords = st \<rparr>)"

definition dictionaryThaiTokenize :: "tokenizer \<Rightarrow> jsstring \<Rightarrow> jsstring list option" where
  "dictionaryThaiTokenize t text =
     (case thaiDictionary (options t) of
        None \<Rightarrow> Some (simpleTokenize text)
      | Some d \<Rightarrow> if d = [] then Some (simpleTokenize text) else dict_while d text [])"

definition tokenizeThai :: "tokenizer \<Rightarrow> jsstring \<Rightarrow> jsstring list option" where
  "tokenizeThai t text =
     (if text = [] then Some []
      else if thaiDictionary (options t) = None then Some (simpleTokenize text)
      else dictionaryThaiTokenize t text)"

definition standalone_segment :: "unicode \<Rightarrow> tokenizer \<Rightarrow> jsstring \<Rightarrow> jsstring list option" where
  "standalone_segment env t text =
     (if language (options t) = js ''th'' \<and> thaiDictionary (options t) \<noteq> None
      then tokenizeThai t text
      else Some (universalTokenize env text))"

definition standalone_stemming_stage :: "unicode \<Rightarrow> tokenizer \<Rightarrow> jsstring list \<Rightarrow> jsstring list" where
  "standalone_stemming_stage env t tokens =
     (if stemming (options t) \<and> language (options t) \<noteq> js ''th''
      then map (\<lambda>token. stemToken env (JSString token)) tokens else tokens)"

definition standalone_tokenize :: "unicode \<Rightarrow> tokenizer \<Rightarrow> jsvalue \<Rightarrow> jsstring list option" where
  "standalone_tokenize env t v =
     (if \<not> truthy v \<or> \<not> is_string v then Some []
      else case v of
             JSString text \<Rightarrow>
               map_option (\<lambda>tokens. standalone_stemming_stage env t
                                      (stopword_stage env t (lowercase_stage env t tokens)))
                 (standalone_segment env t text)
           | _ \<Rightarrow> Some [])"

section \<open>Notions used to state the properties\<close>

text \<open>A token of the heuristic segmenter is clean when it is not empty and holds no
  whitespace code unit.\<close>

definition clean_token :: "jsstring \<Rightarrow> bool" where
  "clean_token tok = (tok \<noteq> [] \<and> \<not> list_ex isWhiteSpace tok)"

text \<open>The frequency object the specification describes: every token of the list mapped to the
  number of times it occurs, and nothing else.\<close>

definition token_counts :: "jsstring list \<Rightarrow> (jsstring \<rightharpoonup> jsvalue)" where
  "token_counts tokens =
     (\<lambda>k. if k \<in> set tokens then Some (JSNumber (int (count_list tokens k))) else None)"

text \<open>
  Tokenizer instances for the examples, each built by the constructor: no stopword files
  on disk, the Unicode tables of the Basic Latin and Thai blocks.
\<close>

definition case_keeping_filter :: tokenizer where
  "case_keeping_filter = new_Tokenizer basic_unicode (\<lambda>l. None)
     (no_options\<lparr>given_lowercase := Some False, given_removeStopwords := Some True\<rparr>)"

definition english_stemmer :: tokenizer where
  "english_stemmer = new_Tokenizer basic_unicode (\<lambda>l. None) (no_options\<lparr>given_stemming := Some True\<rparr>)"

definition thai_stemmer :: tokenizer where
  "thai_stemmer = new_Tokenizer basic_unicode (\<lambda>l. None)
     (no_options\<lparr>given_stemming := Some True, given_language := Some (js ''th'')\<rparr>)"

definition thai_without_dictionary :: tokenizer where
  "thai_without_dictionary =
     new_Tokenizer basic_unicode (\<lambda>l. None) (no_options\<lparr>given_language := Some (js ''th'')\<rparr>)"

definition thai_with_empty_dictionary :: tokenizer where
  "thai_with_empty_dictionary =
     new_Tokenizer basic_unicode (\<lambda>l. None)
       (no_options\<lparr>given_language := Some (js ''th''), given_thaiDictionary := Some []\<rparr>)"

definition thai_with_dictionary :: tokenizer where
  "thai_with_dictionary =
     new_Tokenizer basic_unicode (\<lambda>l. None)
       (no_options\<lparr>given_language := Some (js ''th''),
          given_thaiDictionary := Some [[0x0E01, 0x0E32]]\<rparr>)"

text \<open>Constructor options for a stemming tokenizer of a language outside the whitelist.\<close>

definition russian_stemmer_options :: constructor_options where
  "russian_stemmer_options =
     no_options\<lparr>given_stemming := Some True, given_language := Some (js ''ru'')\<rparr>"

section \<open>Properties of the heuristic segmenter\<close>

lemma thaiPattern_not_white:
  assumes "thaiPattern c"
  shows "\<not> isWhiteSpace c"
proof
  assume w: "isWhiteSpace c"
  from assms have lo: "0x0E00 \<le> c" and hi: "c \<le> 0x0E7F"
    by (simp_all add: thaiPattern_def)
  from w consider "c \<in> {0x0009, 0x000A, 0x000B, 0x000C, 0x000D, 0x0020, 0x00A0, 0x1680,
            0x2028, 0x2029, 0x202F, 0x205F, 0x3000, 0xFEFF}" | "0x2000 \<le> c"
    unfolding isWhiteSpace_def by blast
  then show False
  proof cases
    case 1
    with lo hi show False by auto
  next
    case 2
    from 2 hi have "(0x2000 :: jschar) \<le> 0x0E7F" by (rule order_trans)
    then show False by simp
  qed
qed

lemma trim_single: "(trim [c] \<noteq> []) = (\<not> isWhiteSpace c)"
  by (simp add: trim_def)

lemma space_white: "isWhiteSpace 0x20"
  by (simp add: isWhiteSpace_def)

lemma simple_loop_concat:
  "concat (simple_loop inp tokens cur) =
     concat tokens @ cur @ filter (\<lambda>c. \<not> isWhiteSpace c) inp"
proof (induction inp arbitrary: tokens cur)
  case Nil
  then show ?case by simp
next
  case (Cons c rest)
  show ?case
  proof (cases "c = 0x20 \<or> \<not> regex_test thaiPattern [c]")
    case True
    then show ?thesis
      using space_white by (auto simp: Cons.IH trim_single Let_def)
  next
    case False
    then have "\<not> isWhiteSpace c"
      by (simp add: regex_test_def thaiPattern_not_white)
    with False show ?thesis
      by (simp add: Cons.IH Let_def)
  qed
qed

lemma simple_loop_clean:
  "list_all clean_token tokens \<Longrightarrow> \<not> list_ex isWhiteSpace cur \<Longrightarrow>
   list_all clean_token (simple_loop inp tokens cur)"
proof (induction inp arbitrary: tokens cur)
  case Nil
  then show ?case by (simp add: clean_token_def[of cur])
next
  case (Cons c rest)
  show ?case
  proof (cases "c = 0x20 \<or> \<not> regex_test thaiPattern [c]")
    case True
    let ?t1 = "if cur \<noteq> [] then tokens @ [cur] else tokens"
    let ?t2 = "if trim [c] \<noteq> [] then ?t1 @ [[c]] else ?t1"
    have "list_all clean_token ?t1"
      using Cons.prems by (cases "cur = []") (simp_all add: clean_token_def[of cur])
    then have "list_all clean_token ?t2"
      by (simp add: clean_token_def[of "[c]"] trim_single)
    then have "list_all clean_token (simple_loop rest ?t2 [])"
      by (rule Cons.IH) simp
    with True show ?thesis by (simp add: Let_def)
  next
    case False
    then have nw: "\<not> isWhiteSpace c"
      by (simp add: regex_test_def thaiPattern_not_white)
    have 1: "list_all clean_token (simple_loop rest (tokens @ [cur @ [c]]) [])"
      by (rule Cons.IH) (use Cons.prems nw in \<open>simp_all add: clean_token_def[of "cur @ [c]"]\<close>)
    have 2: "list_all clean_token (simple_loop rest tokens (cur @ [c]))"
      by (rule Cons.IH) (use Cons.prems nw in \<open>simp_all\<close>)
    from False 1 2 show ?thesis by (simp add: Let_def)
  qed
qed

text \<open>
  C10. Concatenating the tokens of \<open>simpleTokenize\<close> in output order gives the input with
  exactly its whitespace code units removed (whitespace being what \<open>trim\<close> strips), so every
  other code unit appears once, in order, in one token; and no token is empty or holds a
  whitespace code unit.
\<close>

theorem simpleTokenize_concat:
  "concat (simpleTokenize inp) = filter (\<lambda>c. \<not> isWhiteSpace c) inp
   \<and> (\<forall>tok \<in> set (simpleTokenize inp). tok \<noteq> [] \<and> (\<forall>c \<in> set tok. \<not> isWhiteSpace c))"
proof
  show "concat (simpleTokenize inp) = filter (\<lambda>c. \<not> isWhiteSpace c) inp"
    by (simp add: simpleTokenize_def simple_loop_concat)
next
  have "list_all clean_token (simple_loop inp [] [])"
    by (rule simple_loop_clean) simp_all
  then show "\<forall>tok \<in> set (simpleTokenize inp). tok \<noteq> [] \<and> (\<forall>c \<in> set tok. \<not> isWhiteSpace c)"
    by (simp add: simpleTokenize_def list_all_iff clean_token_def list_ex_iff)
qed

theorem simpleTokenize_concat_witness:
  "concat (simpleTokenize [0x0E01, 0x0E32, 0x20, 0x61, 0x09, 0x62]) = [0x0E01, 0x0E32, 0x61, 0x62]
   \<and> [0x61] \<in> set (simpleTokenize [0x0E01, 0x0E32, 0x20, 0x61, 0x09, 0x62])"
proof
  show "concat (simpleTokenize [0x0E01, 0x0E32, 0x20, 0x61, 0x09, 0x62]) = [0x0E01, 0x0E32, 0x61, 0x62]"
    using simpleTokenize_concat [of "[0x0E01, 0x0E32, 0x20, 0x61, 0x09, 0x62]"]
    by (simp add: isWhiteSpace_def)
next
  show "[0x61] \<in> set (simpleTokenize [0x0E01, 0x0E32, 0x20, 0x61, 0x09, 0x62])"
    by (simp add: simpleTokenize_def regex_test_def thaiPattern_def thaiVowelPattern_def
        thaiToneMarkPattern_def trim_def isWhiteSpace_def)
qed

section \<open>Properties of the dictionary segmenter\<close>

lemma skip_spaces_le: "length (skip_spaces s) \<le> length s"
  by (induction s) auto

lemma scan_inv:
  assumes "snd st \<longrightarrow> fst st \<noteq> [] \<and> startsWith r (fst st)"
    and "\<not> snd st \<longrightarrow> fst st = []"
  shows "(snd (fold (scan_step r) d st) \<longrightarrow>
           fst (fold (scan_step r) d st) \<noteq> [] \<and> startsWith r (fst (fold (scan_step r) d st))
           \<and> (fst (fold (scan_step r) d st) = fst st \<or> fst (fold (scan_step r) d st) \<in> set d))
       \<and> (\<not> snd (fold (scan_step r) d st) \<longrightarrow> fst (fold (scan_step r) d st) = [])
       \<and> length (fst st) \<le> length (fst (fold (scan_step r) d st))
       \<and> (\<forall>v\<in>set d. startsWith r v \<longrightarrow> length v \<le> length (fst (fold (scan_step r) d st)))"
  using assms
proof (induction d arbitrary: st)
  case Nil
  then show ?case by simp
next
  case (Cons w d)
  obtain lw f where st: "st = (lw, f)" by (cases st)
  let ?st' = "scan_step r w st"
  have a: "snd ?st' \<longrightarrow> fst ?st' \<noteq> [] \<and> startsWith r (fst ?st')"
    using Cons.prems by (auto simp: scan_step_def st)
  have b: "\<not> snd ?st' \<longrightarrow> fst ?st' = []"
    using Cons.prems by (auto simp: scan_step_def st)
  have c: "length (fst st) \<le> length (fst ?st')" "startsWith r w \<longrightarrow> length w \<le> length (fst ?st')"
    "fst ?st' = fst st \<or> fst ?st' = w"
    by (auto simp: scan_step_def st)
  note ih = Cons.IH[OF a b]
  have f: "fold (scan_step r) (w # d) st = fold (scan_step r) d ?st'" by simp
  show ?case unfolding f
  proof (intro conjI ballI impI)
    assume "snd (fold (scan_step r) d ?st')"
    with ih show "fst (fold (scan_step r) d ?st') \<noteq> []"
      and "startsWith r (fst (fold (scan_step r) d ?st'))"
      and "fst (fold (scan_step r) d ?st') = fst st \<or> fst (fold (scan_step r) d ?st') \<in> set (w # d)"
      using c(3) by auto
  next
    assume "\<not> snd (fold (scan_step r) d ?st')"
    with ih show "fst (fold (scan_step r) d ?st') = []" by blast
  next
    from ih c(1) show "length (fst st) \<le> length (fst (fold (scan_step r) d ?st'))"
      by linarith
  next
    fix v assume v: "v \<in> set (w # d)" "startsWith r v"
    show "length v \<le> length (fst (fold (scan_step r) d ?st'))"
    proof (cases "v = w")
      case True
      with v c(2) have "length v \<le> length (fst ?st')" by simp
      with ih show ?thesis by linarith
    next
      case False
      with v have "v \<in> set d" by simp
      with ih v(2) show ?thesis by blast
    qed
  qed
qed

lemma longest_scan_props:
  "(snd (longest_scan r d) \<longrightarrow>
      fst (longest_scan r d) \<noteq> [] \<and> startsWith r (fst (longest_scan r d))
      \<and> fst (longest_scan r d) \<in> set d)
   \<and> (\<not> snd (longest_scan r d) \<longrightarrow> fst (longest_scan r d) = [])
   \<and> (\<forall>v\<in>set d. startsWith r v \<longrightarrow> length v \<le> length (fst (longest_scan r d)))"
  using scan_inv[of "([], False)" r d] unfolding longest_scan_def by auto

lemma longest_scan_found_iff:
  "snd (longest_scan r d) = (\<exists>v\<in>set d. v \<noteq> [] \<and> startsWith r v)"
proof
  assume "snd (longest_scan r d)"
  with longest_scan_props[of r d] show "\<exists>v\<in>set d. v \<noteq> [] \<and> startsWith r v" by blast
next
  assume "\<exists>v\<in>set d. v \<noteq> [] \<and> startsWith r v"
  then obtain v where v: "v \<in> set d" "v \<noteq> []" "startsWith r v" by blast
  with longest_scan_props[of r d] have "length v \<le> length (fst (longest_scan r d))" by blast
  with v(2) have "fst (longest_scan r d) \<noteq> []" by auto
  with longest_scan_props[of r d] show "snd (longest_scan r d)" by blast
qed

lemma dict_body_found:
  "snd (longest_scan r d) \<Longrightarrow>
   dict_body d r = (fst (longest_scan r d), skip_spaces (drop (length (fst (longest_scan r d))) r))"
  by (cases "longest_scan r d") (simp add: dict_body_def)

lemma dict_body_not_found:
  "\<not> snd (longest_scan r d) \<Longrightarrow> dict_body d r = (take 1 r, skip_spaces (drop 1 r))"
  by (cases "longest_scan r d") (simp add: dict_body_def)

lemma dict_body_progress: "length (snd (dict_body d (c # rest))) \<le> length rest"
proof (cases "snd (longest_scan (c # rest) d)")
  case True
  with longest_scan_props[of "c # rest" d] have "fst (longest_scan (c # rest) d) \<noteq> []" by blast
  then obtain x w' where w: "fst (longest_scan (c # rest) d) = x # w'"
    by (cases "fst (longest_scan (c # rest) d)") auto
  have "length (skip_spaces (drop (length w') rest)) \<le> length (drop (length w') rest)"
    by (rule skip_spaces_le)
  also have "\<dots> \<le> length rest" by simp
  finally show ?thesis using True w by (simp add: dict_body_found)
next
  case False
  with skip_spaces_le[of rest] show ?thesis
    by (simp add: dict_body_not_found)
qed

lemma dict_while_step:
  "r \<noteq> [] \<Longrightarrow>
   dict_while d r toks = dict_while d (snd (dict_body d r)) (toks @ [fst (dict_body d r)])"
  by (subst dict_while.simps) (simp split: prod.splits)

lemma dict_while_Nil: "dict_while d [] toks = Some toks"
  by (subst dict_while.simps) simp

lemma dict_while_returns: "\<exists>out. dict_while d r toks = Some out"
proof (induction r arbitrary: toks rule: length_induct)
  case (1 r)
  show ?case
  proof (cases r)
    case Nil
    then show ?thesis by (simp add: dict_while_Nil)
  next
    case (Cons c rest)
    with dict_body_progress[of d c rest] have "length (snd (dict_body d r)) < length r" by simp
    with 1 obtain out where "dict_while d (snd (dict_body d r)) (toks @ [fst (dict_body d r)]) = Some out"
      by blast
    with Cons show ?thesis by (simp add: dict_while_step)
  qed
qed

lemma dictionaryTokenize_returns: "\<exists>out. dictionaryTokenize s dictionary = Some out"
  by (cases dictionary) (simp_all add: dictionaryTokenize_def dict_while_returns)

text \<open>
  C3. \<open>dictionaryTokenize\<close> returns for every text and every dictionary, a dictionary that
  holds the empty string included: a word the scan selects is never empty, a round with no
  match takes exactly the first code unit, and every round of the loop leaves fewer code
  units than it found.
\<close>

theorem dictionaryTokenize_terminates:
  "(\<exists>tokens. dictionaryTokenize inp dictionary = Some tokens)
   \<and> (snd (longest_scan remaining d) \<longrightarrow> fst (longest_scan remaining d) \<noteq> [])
   \<and> (\<not> snd (longest_scan (c # rest) d) \<longrightarrow> dict_body d (c # rest) = ([c], skip_spaces rest))
   \<and> length (snd (dict_body d (c # rest))) < length (c # rest)"
proof (intro conjI)
  show "\<exists>tokens. dictionaryTokenize inp dictionary = Some tokens"
    by (rule dictionaryTokenize_returns)
  show "snd (longest_scan remaining d) \<longrightarrow> fst (longest_scan remaining d) \<noteq> []"
    using longest_scan_props[of remaining d] by blast
  show "\<not> snd (longest_scan (c # rest) d) \<longrightarrow> dict_body d (c # rest) = ([c], skip_spaces rest)"
    by (simp add: dict_body_not_found)
  show "length (snd (dict_body d (c # rest))) < length (c # rest)"
    using dict_body_progress[of d c rest] by simp
qed

theorem dictionaryTokenize_terminates_witness:
  "(\<exists>tokens. dictionaryTokenize (js ''a b'') (Some [[], js ''b'']) = Some tokens)
   \<and> snd (longest_scan (js ''b'') [[], js ''b''])
   \<and> fst (longest_scan (js ''b'') [[], js ''b'']) \<noteq> []
   \<and> \<not> snd (longest_scan (js ''a b'') [[], js ''b''])
   \<and> dict_body [[], js ''b''] (js ''a b'') = (js ''a'', js ''b'')"
proof -
  have f: "snd (longest_scan (js ''b'') [[], js ''b''])"
    and n: "\<not> snd (longest_scan (js ''a b'') [[], js ''b''])"
    by (simp_all add: js_def longest_scan_def scan_step_def startsWith_def)
  have ab: "js ''a b'' = 0x61 # js '' b''" "skip_spaces (js '' b'') = js ''b''" "[0x61] = js ''a''"
    by (simp_all add: js_def)
  from f n dictionaryTokenize_terminates [where inp = "js ''a b''" and dictionary = "Some [[], js ''b'']"
      and remaining = "js ''b''" and d = "[[], js ''b'']" and c = "0x61" and rest = "js '' b''"]
  show ?thesis unfolding ab by blast
qed

lemma longest_scan_abcd:
  assumes "set d = {js ''a'', js ''ab'', js ''abc''}"
  shows "longest_scan (js ''abcd'') d = (js ''abc'', True)"
proof -
  let ?res = "longest_scan (js ''abcd'') d"
  have "js ''abc'' \<in> set d" "startsWith (js ''abcd'') (js ''abc'')"
    using assms by (simp_all add: startsWith_def js_def)
  with longest_scan_props[of "js ''abcd''" d] have len: "length (js ''abc'') \<le> length (fst ?res)"
    by blast
  then have ne: "fst ?res \<noteq> []" by (auto simp: js_def)
  with longest_scan_props[of "js ''abcd''" d] have found: "snd ?res" by blast
  with longest_scan_props[of "js ''abcd''" d] have "fst ?res \<in> set d" by blast
  with assms have "fst ?res = js ''a'' \<or> fst ?res = js ''ab'' \<or> fst ?res = js ''abc''" by simp
  with len have "fst ?res = js ''abc''" by (auto simp: js_def)
  with found show ?thesis by (cases ?res) simp
qed

lemma longest_scan_d:
  assumes "set d = {js ''a'', js ''ab'', js ''abc''}"
  shows "\<not> snd (longest_scan (js ''d'') d)"
proof
  assume "snd (longest_scan (js ''d'') d)"
  then obtain v where "v \<in> set d" "startsWith (js ''d'') v"
    unfolding longest_scan_found_iff by blast
  with assms have "v = js ''a'' \<or> v = js ''ab'' \<or> v = js ''abc''" by simp
  with \<open>startsWith (js ''d'') v\<close> show False
    by (auto simp: startsWith_def js_def)
qed

lemma dictionaryTokenize_abcd:
  assumes "set d = {js ''a'', js ''ab'', js ''abc''}"
  shows "dictionaryTokenize (js ''abcd'') (Some d) = Some [js ''abc'', js ''d'']"
proof -
  from assms have d: "d \<noteq> []" by auto
  have b1: "dict_body d (js ''abcd'') = (js ''abc'', js ''d'')"
    using longest_scan_abcd[OF assms] by (simp add: dict_body_def) (simp add: js_def)
  have b2: "dict_body d (js ''d'') = (js ''d'', [])"
    using longest_scan_d[OF assms] by (simp add: dict_body_not_found) (simp add: js_def)
  have "dict_while d (js ''abcd'') [] = dict_while d (js ''d'') [js ''abc'']"
    by (subst dict_while_step) (simp_all add: b1, simp add: js_def)
  also have "\<dots> = dict_while d [] [js ''abc'', js ''d'']"
    by (subst dict_while_step) (simp_all add: b2, simp add: js_def)
  also have "\<dots> = Some [js ''abc'', js ''d'']"
    by (rule dict_while_Nil)
  finally show ?thesis using d by (simp add: dictionaryTokenize_def) (simp add: js_def)
qed

text \<open>
  C2. With the dictionary \<open>{"a", "ab", "abc"}\<close>, in whatever order its entries were
  inserted, \<open>"abcd"\<close> is segmented into \<open>["abc", "d"]\<close>. In general, every round of the
  loop on a non-empty remaining text pushes the token \<open>dict_body\<close> chooses; and when some
  non-empty entry of the dictionary is a prefix of the remaining text, that token is an entry
  of the dictionary, a prefix of the remaining text, and at least as long as every entry
  that is a prefix: a longer matching entry always wins over a shorter one.
\<close>

theorem dictionary_longest_match:
  "(set d = {js ''a'', js ''ab'', js ''abc''} \<longrightarrow>
      dictionaryTokenize (js ''abcd'') (Some d) = Some [js ''abc'', js ''d''])
   \<and> (remaining \<noteq> [] \<longrightarrow>
        dict_while dictionary remaining tokens =
        dict_while dictionary (snd (dict_body dictionary remaining))
          (tokens @ [fst (dict_body dictionary remaining)]))
   \<and> (w \<in> set dictionary \<and> w \<noteq> [] \<and> startsWith remaining w \<longrightarrow>
        fst (dict_body dictionary remaining) \<in> set dictionary
        \<and> startsWith remaining (fst (dict_body dictionary remaining))
        \<and> (\<forall>v \<in> set dictionary. startsWith remaining v \<longrightarrow>
              length v \<le> length (fst (dict_body dictionary remaining))))"
proof (intro conjI impI)
  assume "set d = {js ''a'', js ''ab'', js ''abc''}"
  then show "dictionaryTokenize (js ''abcd'') (Some d) = Some [js ''abc'', js ''d'']"
    by (rule dictionaryTokenize_abcd)
next
  assume "remaining \<noteq> []"
  then show "dict_while dictionary remaining tokens =
        dict_while dictionary (snd (dict_body dictionary remaining))
          (tokens @ [fst (dict_body dictionary remaining)])"
    by (rule dict_while_step)
next
  assume w: "w \<in> set dictionary \<and> w \<noteq> [] \<and> startsWith remaining w"
  then have found: "snd (longest_scan remaining dictionary)"
    unfolding longest_scan_found_iff by blast
  then have tok: "fst (dict_body dictionary remaining) = fst (longest_scan remaining dictionary)"
    by (simp add: dict_body_found)
  from found longest_scan_props[of remaining dictionary]
  show "fst (dict_body dictionary remaining) \<in> set dictionary"
    and "startsWith remaining (fst (dict_body dictionary remaining))"
    and "\<forall>v \<in> set dictionary. startsWith remaining v \<longrightarrow>
              length v \<le> length (fst (dict_body dictionary remaining))"
    unfolding tok by blast+
qed

theorem dictionary_longest_match_witness:
  "dictionaryTokenize (js ''abcd'') (Some [js ''ab'', js ''abc'', js ''a'']) = Some [js ''abc'', js ''d'']
   \<and> fst (dict_body [js ''ab'', js ''abc'', js ''a''] (js ''abcd'')) \<in> set [js ''ab'', js ''abc'', js ''a'']
   \<and> length (js ''ab'') \<le> length (fst (dict_body [js ''ab'', js ''abc'', js ''a''] (js ''abcd'')))"
proof -
  have d: "set [js ''ab'', js ''abc'', js ''a''] = {js ''a'', js ''ab'', js ''abc''}"
    by auto
  have w: "js ''ab'' \<in> set [js ''ab'', js ''abc'', js ''a''] \<and> js ''ab'' \<noteq> []
      \<and> startsWith (js ''abcd'') (js ''ab'')"
    by (simp add: js_def startsWith_def)
  from d w dictionary_longest_match [where d = "[js ''ab'', js ''abc'', js ''a'']"
      and dictionary = "[js ''ab'', js ''abc'', js ''a'']" and remaining = "js ''abcd''"
      and w = "js ''ab''" and tokens = "[]"]
  show ?thesis by blast
qed

section \<open>Evaluating examples\<close>

lemmas universal_eval =
  universalTokenize_def match_here_def has_category_def code_point_value_def
  basic_unicode_def latin_thai_category_def ascii_lower_def isHighSurrogate_def
  isLowSurrogate_def word_groups.simps js_def

lemma default_options:
  "options (new_Tokenizer env language_file no_options) =
     \<lparr>lowercase = True, removeStopwords = False, customStopwords = [], stemming = False,
      language = js ''en'', thaiDictionary = None\<rparr>"
  by (simp add: new_Tokenizer_def no_options_def Let_def)

lemma universal_x_y_z:
  "universalTokenize basic_unicode (js ''x y z'') = [js ''x'', js ''y'', js ''z'']"
  by (simp add: universal_eval)

lemma tokenize_x_y_z:
  "tokenize basic_unicode (new_Tokenizer basic_unicode (\<lambda>l. None) no_options) (JSString (js ''x y z''))
     = Some [js ''x'', js ''y'', js ''z'']"
proof -
  have "js ''en'' \<noteq> js ''th''" "js ''x y z'' \<noteq> []" by (simp_all add: js_def)
  then show ?thesis
    by (simp add: tokenize_def segment_def lowercase_stage_def stopword_stage_def
        stemming_stage_def default_options universal_x_y_z)
      (simp add: basic_unicode_def ascii_lower_def js_def)
qed

section \<open>The stemmer\<close>

lemma stem_running:
  assumes "toLowerCase env (js ''running'') = js ''running''"
  shows "stemToken env (JSString (js ''running'')) = js ''run''"
proof -
  have a: "step_1a (js ''running'') = js ''running''"
    by (simp add: step_1a_def endsWith_def suffix_to_prefix js_def)
  have b: "step_1b (js ''running'') = js ''run''"
    by (simp add: step_1b_def endsWith_def suffix_to_prefix js_def slice_def regex_test_def
        aeiou_def)
  have c: "step_1c (js ''run'') = js ''run''"
    by (simp add: step_1c_def endsWith_def suffix_to_prefix js_def)
  have "truthy (JSString (js ''running''))" by (simp add: js_def)
  with assms a b c show ?thesis by (simp add: stemToken_def)
qed

lemma stem_run:
  assumes "toLowerCase env (js ''run'') = js ''run''"
  shows "stemToken env (JSString (js ''run'')) = js ''run''"
proof -
  have a: "step_1a (js ''run'') = js ''run''"
    by (simp add: step_1a_def endsWith_def suffix_to_prefix js_def)
  have b: "step_1b (js ''run'') = js ''run''"
    by (simp add: step_1b_def endsWith_def suffix_to_prefix js_def)
  have c: "step_1c (js ''run'') = js ''run''"
    by (simp add: step_1c_def endsWith_def suffix_to_prefix js_def)
  have "truthy (JSString (js ''run''))" by (simp add: js_def)
  with assms a b c show ?thesis by (simp add: stemToken_def)
qed

text \<open>
  C7. \<open>stem("running")\<close> is \<open>"run"\<close>, and stemming that result again changes nothing. The
  engine's \<open>toLowerCase\<close> is a parameter; all that is asked of it is that it leaves the two
  lowercase ASCII words as they are.
\<close>

theorem stem_running_idempotent:
  assumes "toLowerCase env (js ''running'') = js ''running''"
    and "toLowerCase env (js ''run'') = js ''run''"
  shows "stemToken env (JSString (js ''running'')) = js ''run''
    \<and> stemToken env (JSString (stemToken env (JSString (js ''running''))))
        = stemToken env (JSString (js ''running''))"
  using assms by (simp add: stem_running stem_run)

theorem stem_running_idempotent_witness:
  "stemToken basic_unicode (JSString (js ''running'')) = js ''run''
    \<and> stemToken basic_unicode (JSString (stemToken basic_unicode (JSString (js ''running''))))
        = stemToken basic_unicode (JSString (js ''running''))"
proof -
  have 1: "toLowerCase basic_unicode (js ''running'') = js ''running''"
    by (simp add: basic_unicode_def ascii_lower_def js_def)
  have 2: "toLowerCase basic_unicode (js ''run'') = js ''run''"
    by (simp add: basic_unicode_def ascii_lower_def js_def)
  from 1 2 show ?thesis by (rule stem_running_idempotent)
qed

section \<open>Invalid input\<close>

text \<open>
  C9. Called with the empty string, \<open>null\<close>, \<open>undefined\<close> or any value that is not a string,
  \<open>tokenize\<close> returns the empty list, \<open>ngramTokenize\<close> the empty list for every \<open>n\<close>, and
  \<open>getTokenFrequency\<close> the empty object, whatever the configuration. Each of them returns:
  the model has no path that throws, and \<open>None\<close> would be a call that never returns.
\<close>

theorem invalid_input_empty:
  assumes "v = JSString [] \<or> v = JSNull \<or> v = JSUndefined \<or> \<not> is_string v"
  shows "tokenize env t v = Some []
    \<and> ngramTokenize env t v n = Some []
    \<and> getTokenFrequency env t v = Some Map.empty"
proof -
  from assms have "\<not> truthy v \<or> \<not> is_string v" by auto
  then have tk: "tokenize env t v = Some []"
    by (auto simp: tokenize_def)
  from \<open>\<not> truthy v \<or> \<not> is_string v\<close> have "ngramTokenize env t v n = Some []"
    by (auto simp: ngramTokenize_def Let_def)
  with tk show ?thesis by (simp add: getTokenFrequency_def)
qed

theorem invalid_input_empty_witness:
  "tokenize basic_unicode (new_Tokenizer basic_unicode (\<lambda>l. None) no_options) JSNull = Some []
    \<and> ngramTokenize basic_unicode (new_Tokenizer basic_unicode (\<lambda>l. None) no_options) (JSString []) (Some 2) = Some []
    \<and> getTokenFrequency basic_unicode (new_Tokenizer basic_unicode (\<lambda>l. None) no_options) (JSNumber 5) = Some Map.empty"
  using invalid_input_empty [of JSNull basic_unicode "new_Tokenizer basic_unicode (\<lambda>l. None) no_options"]
    invalid_input_empty [of "JSString []" basic_unicode "new_Tokenizer basic_unicode (\<lambda>l. None) no_options" "Some 2"]
    invalid_input_empty [of "JSNumber 5" basic_unicode "new_Tokenizer basic_unicode (\<lambda>l. None) no_options"]
  by simp

section \<open>N-grams\<close>

lemma slice_window:
  assumes "0 \<le> i" "1 \<le> n" "i \<le> int (length xs) - n"
  shows "slice xs i (i + n) = take (nat n) (drop (nat i) xs)"
proof -
  from assms have "min i (int (length xs)) = i" "min (i + n) (int (length xs)) = i + n"
    by auto
  with assms show ?thesis by (simp add: slice_def Let_def)
qed

lemma ngram_loop_windows:
  assumes "1 \<le> n" "0 \<le> i"
  shows "ngram_loop tokens n i ngrams =
    ngrams @ map (\<lambda>j. join (js '' '') (take (nat n) (drop j tokens)))
                 [nat i ..< length tokens + 1 - nat n]"
  using assms
proof (induction tokens n i ngrams rule: ngram_loop.induct)
  case (1 tokens n i ngrams)
  show ?case
  proof (cases "i \<le> int (length tokens) - n")
    case True
    with "1.prems" have lt: "nat i < length tokens + 1 - nat n" by linarith
    have nx: "nat (i + 1) = Suc (nat i)" using "1.prems" by simp
    have "ngram_loop tokens n i ngrams =
        ngram_loop tokens n (i + 1) (ngrams @ [join (js '' '') (slice tokens i (i + n))])"
      using True by (subst ngram_loop.simps) simp
    also have "\<dots> = (ngrams @ [join (js '' '') (slice tokens i (i + n))])
        @ map (\<lambda>j. join (js '' '') (take (nat n) (drop j tokens)))
              [nat (i + 1) ..< length tokens + 1 - nat n]"
      using "1.IH"[OF True] "1.prems" by simp
    also have "\<dots> = ngrams @ map (\<lambda>j. join (js '' '') (take (nat n) (drop j tokens)))
              [nat i ..< length tokens + 1 - nat n]"
      using lt nx slice_window[of i n tokens] "1.prems" True
      by (simp add: upt_conv_Cons)
    finally show ?thesis .
  next
    case False
    with "1.prems" have "\<not> nat i < length tokens + 1 - nat n" by linarith
    then have "[nat i ..< length tokens + 1 - nat n] = []" by simp
    with False show ?thesis by (subst ngram_loop.simps) simp
  qed
qed

text \<open>
  C8. For an integer \<open>n \<ge> 1\<close> and a text whose tokenization is \<open>tokens\<close>, of length \<open>L\<close>,
  \<open>ngramTokenize\<close> returns the windows of \<open>n\<close> consecutive tokens, each joined by one
  space, in the order of their first token; there are \<open>L - n + 1\<close> of them when \<open>n \<le> L\<close> and
  none when \<open>n > L\<close>.
\<close>

theorem ngramTokenize_windows:
  assumes "tokenize env t (JSString s) = Some tokens" and "1 \<le> n"
  shows "ngramTokenize env t (JSString s) (Some n) =
      Some (map (\<lambda>i. join (js '' '') (take (nat n) (drop i tokens)))
                [0 ..< length tokens + 1 - nat n])
    \<and> (n \<le> int (length tokens) \<longrightarrow>
         map_option length (ngramTokenize env t (JSString s) (Some n))
           = Some (length tokens - nat n + 1))
    \<and> (int (length tokens) < n \<longrightarrow> ngramTokenize env t (JSString s) (Some n) = Some [])"
proof -
  have loop: "ngram_loop tokens n 0 [] =
      map (\<lambda>i. join (js '' '') (take (nat n) (drop i tokens))) [0 ..< length tokens + 1 - nat n]"
    using ngram_loop_windows[of n 0 tokens "[]"] assms(2) by simp
  have main: "ngramTokenize env t (JSString s) (Some n) =
      Some (map (\<lambda>i. join (js '' '') (take (nat n) (drop i tokens)))
                [0 ..< length tokens + 1 - nat n])"
  proof (cases "s = []")
    case True
    with assms(1) have "tokens = []" by (simp add: tokenize_def)
    with True assms(2) show ?thesis by (simp add: ngramTokenize_def)
  next
    case False
    with assms loop show ?thesis by (simp add: ngramTokenize_def)
  qed
  have "n \<le> int (length tokens) \<longrightarrow> length tokens + 1 - nat n = length tokens - nat n + 1"
    using assms(2) by auto
  moreover have "int (length tokens) < n \<longrightarrow> length tokens + 1 - nat n = 0"
    using assms(2) by auto
  ultimately show ?thesis using main by simp
qed

theorem ngramTokenize_windows_witness:
  "ngramTokenize basic_unicode (new_Tokenizer basic_unicode (\<lambda>l. None) no_options)
      (JSString (js ''x y z'')) (Some 2) = Some [js ''x y'', js ''y z'']
   \<and> ngramTokenize basic_unicode (new_Tokenizer basic_unicode (\<lambda>l. None) no_options)
      (JSString (js ''x y z'')) (Some 4) = Some []"
proof -
  have 2: "[0 ..< 2] = [0, Suc 0]" by (simp add: upt_conv_Cons)
  from ngramTokenize_windows [OF tokenize_x_y_z, of 2] ngramTokenize_windows [OF tokenize_x_y_z, of 4]
  show ?thesis by (simp add: 2) (simp add: js_def)
qed

section \<open>The post-processing pipeline\<close>

lemma th_not_stemmable: "js ''th'' \<notin> set stemmable_languages"
  by (simp add: stemmable_languages_def js_def)

lemma stemming_stage_Nil: "stemming_stage env t [] = []"
  by (simp add: stemming_stage_def)

lemma stages_without_stopwords_and_stemming:
  "tokenize env (t\<lparr>options := (options t)\<lparr>removeStopwords := False, stemming := False\<rparr>\<rparr>) v
     = (if \<not> truthy v \<or> \<not> is_string v then Some []
        else case v of JSString s \<Rightarrow> map_option (lowercase_stage env t) (segment env t s)
                     | _ \<Rightarrow> Some [])"
proof -
  let ?t = "t\<lparr>options := (options t)\<lparr>removeStopwords := False, stemming := False\<rparr>\<rparr>"
  have "segment env ?t = segment env t" "lowercase_stage env ?t = lowercase_stage env t"
    "stopword_stage env ?t = (\<lambda>tokens. tokens)" "stemming_stage env ?t = (\<lambda>tokens. tokens)"
    by (auto simp: segment_def lowercase_stage_def stopword_stage_def stemming_stage_def fun_eq_iff)
  then show ?thesis
    by (cases v) (simp_all add: tokenize_def)
qed

text \<open>
  C5. The stopword stage is a filter. With stopword removal enabled, \<open>tokenize\<close> hands on to
  the stemming stage exactly those tokens left by the earlier stages (the result of
  \<open>tokenize\<close> with stopword removal and stemming switched off) whose \<open>toLowerCase\<close> form is
  not in the stopword set, in their order; the comparison lowercases the token whatever the
  \<open>lowercase\<close> option says. The output of the stage is always a subsequence of its input.
\<close>

theorem stopword_stage_filter:
  "(removeStopwords (options t) \<longrightarrow>
      tokenize env t v =
        map_option (\<lambda>tokens. stemming_stage env t
                      (filter (\<lambda>token. toLowerCase env token \<notin> stopwords t) tokens))
          (tokenize env (t\<lparr>options := (options t)\<lparr>removeStopwords := False, stemming := False\<rparr>\<rparr>) v))
   \<and> (removeStopwords (options t) \<longrightarrow>
        stopword_stage env t tokens = filter (\<lambda>token. toLowerCase env token \<notin> stopwords t) tokens)
   \<and> subseq (stopword_stage env t tokens) tokens"
proof (intro conjI impI)
  assume r: "removeStopwords (options t)"
  then show "stopword_stage env t tokens = filter (\<lambda>token. toLowerCase env token \<notin> stopwords t) tokens"
    by (simp add: stopword_stage_def)
  from r have st: "stopword_stage env t = filter (\<lambda>token. toLowerCase env token \<notin> stopwords t)"
    by (simp add: stopword_stage_def fun_eq_iff)
  show "tokenize env t v =
        map_option (\<lambda>tokens. stemming_stage env t
                      (filter (\<lambda>token. toLowerCase env token \<notin> stopwords t) tokens))
          (tokenize env (t\<lparr>options := (options t)\<lparr>removeStopwords := False, stemming := False\<rparr>\<rparr>) v)"
    unfolding stages_without_stopwords_and_stemming
    by (cases v) (simp_all add: tokenize_def st option.map_comp comp_def stemming_stage_Nil)
next
  show "subseq (stopword_stage env t tokens) tokens"
    by (simp add: stopword_stage_def)
qed

text \<open>
  The \<open>tokenize\<close> of \<open>src/tokenizer.js\<close> with stemming enabled: it stems every token left
  by the earlier stages when the language is one of en, es, fr, it, pt, de, nl, and returns
  them unchanged for every other language, \<open>th\<close> among them.
\<close>

lemma stemming_whitelist:
  "(stemming (options t) \<longrightarrow>
      tokenize env t v =
        (if language (options t) \<in> set (map js [''en'', ''es'', ''fr'', ''it'', ''pt'', ''de'', ''nl''])
         then map_option (map (\<lambda>token. stemToken env (JSString token)))
                (tokenize env (t\<lparr>options := (options t)\<lparr>stemming := False\<rparr>\<rparr>) v)
         else tokenize env (t\<lparr>options := (options t)\<lparr>stemming := False\<rparr>\<rparr>) v))
   \<and> (stemming (options t) \<and> language (options t) = js ''th'' \<longrightarrow>
        tokenize env t v = tokenize env (t\<lparr>options := (options t)\<lparr>stemming := False\<rparr>\<rparr>) v)"
proof -
  let ?t = "t\<lparr>options := (options t)\<lparr>stemming := False\<rparr>\<rparr>"
  have same: "segment env ?t = segment env t" "lowercase_stage env ?t = lowercase_stage env t"
    "stopword_stage env ?t = stopword_stage env t" "stemming_stage env ?t = (\<lambda>tokens. tokens)"
    by (auto simp: segment_def lowercase_stage_def stopword_stage_def stemming_stage_def fun_eq_iff)
  have off: "tokenize env ?t v =
      (if \<not> truthy v \<or> \<not> is_string v then Some []
       else case v of JSString s \<Rightarrow>
              map_option (\<lambda>tokens. stopword_stage env t (lowercase_stage env t tokens)) (segment env t s)
            | _ \<Rightarrow> Some [])"
    unfolding tokenize_def same by (cases v) simp_all
  have wl: "set (map js [''en'', ''es'', ''fr'', ''it'', ''pt'', ''de'', ''nl'']) = set stemmable_languages"
    by (simp add: stemmable_languages_def)
  have 1: "stemming (options t) \<longrightarrow>
      tokenize env t v =
        (if language (options t) \<in> set stemmable_languages
         then map_option (map (\<lambda>token. stemToken env (JSString token))) (tokenize env ?t v)
         else tokenize env ?t v)"
    unfolding off
    by (cases v) (simp_all add: tokenize_def stemming_stage_def option.map_comp comp_def)
  then have 2: "stemming (options t) \<and> language (options t) = js ''th'' \<longrightarrow>
        tokenize env t v = tokenize env ?t v"
    using th_not_stemmable by simp
  from 1 2 show ?thesis unfolding wl by blast
qed

section \<open>Examples of the pipeline\<close>

lemma case_keeping_filter_options:
  "options case_keeping_filter =
     \<lparr>lowercase = False, removeStopwords = True, customStopwords = [], stemming = False,
      language = js ''en'', thaiDictionary = None\<rparr>"
  by (simp add: case_keeping_filter_def new_Tokenizer_def no_options_def Let_def)

lemma case_keeping_filter_stopwords: "stopwords case_keeping_filter = set default_stopwords"
  by (simp add: case_keeping_filter_def new_Tokenizer_def no_options_def Let_def setupStopwords_def)

lemma universal_The_cat:
  "universalTokenize basic_unicode (js ''The cat'') = [js ''The'', js ''cat'']"
  by (simp add: universal_eval)

lemma the_is_stopword: "js ''the'' \<in> set default_stopwords"
  by (simp add: default_stopwords_def js_def)

lemma cat_is_no_stopword: "js ''cat'' \<notin> set default_stopwords"
  by (simp add: default_stopwords_def js_def)

theorem stopword_stage_filter_witness:
  "lowercase (options case_keeping_filter) = False
   \<and> tokenize basic_unicode case_keeping_filter (JSString (js ''The cat'')) = Some [js ''cat'']"
proof -
  let ?off = "case_keeping_filter\<lparr>options :=
      (options case_keeping_filter)\<lparr>removeStopwords := False, stemming := False\<rparr>\<rparr>"
  have ne: "js ''en'' \<noteq> js ''th''" "js ''The cat'' \<noteq> []" by (simp_all add: js_def)
  have before: "tokenize basic_unicode ?off (JSString (js ''The cat'')) = Some [js ''The'', js ''cat'']"
    using ne by (simp add: tokenize_def segment_def lowercase_stage_def stopword_stage_def
        stemming_stage_def case_keeping_filter_options universal_The_cat)
  have low: "toLowerCase basic_unicode (js ''The'') = js ''the''"
    "toLowerCase basic_unicode (js ''cat'') = js ''cat''"
    by (simp_all add: basic_unicode_def ascii_lower_def js_def)
  have on: "removeStopwords (options case_keeping_filter)"
    by (simp add: case_keeping_filter_options)
  have nostem: "\<not> stemming (options case_keeping_filter)"
    by (simp add: case_keeping_filter_options)
  from on stopword_stage_filter [of case_keeping_filter basic_unicode "JSString (js ''The cat'')" "[]"]
  have "tokenize basic_unicode case_keeping_filter (JSString (js ''The cat'')) =
      map_option (\<lambda>tokens. stemming_stage basic_unicode case_keeping_filter
          (filter (\<lambda>token. toLowerCase basic_unicode token \<notin> stopwords case_keeping_filter) tokens))
        (tokenize basic_unicode ?off (JSString (js ''The cat'')))"
    by blast
  also have "\<dots> = Some [js ''cat'']"
    unfolding before
    by (simp add: low the_is_stopword cat_is_no_stopword case_keeping_filter_stopwords
        stemming_stage_def nostem)
  finally show ?thesis by (simp add: case_keeping_filter_options)
qed

lemma english_stemmer_options:
  "options english_stemmer =
     \<lparr>lowercase = True, removeStopwords = False, customStopwords = [], stemming = True,
      language = js ''en'', thaiDictionary = None\<rparr>"
  by (simp add: english_stemmer_def new_Tokenizer_def no_options_def Let_def)

lemma thai_stemmer_options:
  "options thai_stemmer =
     \<lparr>lowercase = True, removeStopwords = False, customStopwords = [], stemming = True,
      language = js ''th'', thaiDictionary = None\<rparr>"
  by (simp add: thai_stemmer_def new_Tokenizer_def no_options_def Let_def) (simp add: js_def)

lemma universal_Running:
  "universalTokenize basic_unicode (js ''Running'') = [js ''Running'']"
  by (simp add: universal_eval)

lemma stemming_whitelist_examples:
  "tokenize basic_unicode english_stemmer (JSString (js ''Running'')) = Some [js ''run'']
   \<and> tokenize basic_unicode thai_stemmer (JSString (js ''Running'')) = Some [js ''Running'']"
proof -
  have ne: "js ''en'' \<noteq> js ''th''" "js ''Running'' \<noteq> []" by (simp_all add: js_def)
  have en: "js ''en'' \<in> set (map js [''en'', ''es'', ''fr'', ''it'', ''pt'', ''de'', ''nl''])"
    by simp
  have low: "toLowerCase basic_unicode (js ''Running'') = js ''running''"
    "toLowerCase basic_unicode (js ''running'') = js ''running''"
    by (simp_all add: basic_unicode_def ascii_lower_def js_def)
  have off_en: "tokenize basic_unicode (english_stemmer\<lparr>options := (options english_stemmer)\<lparr>stemming := False\<rparr>\<rparr>)
      (JSString (js ''Running'')) = Some [js ''running'']"
    using ne by (simp add: tokenize_def segment_def lowercase_stage_def stopword_stage_def
        stemming_stage_def english_stemmer_options universal_Running low)
  have off_th: "tokenize basic_unicode (thai_stemmer\<lparr>options := (options thai_stemmer)\<lparr>stemming := False\<rparr>\<rparr>)
      (JSString (js ''Running'')) = Some [js ''Running'']"
    using ne by (simp add: tokenize_def segment_def lowercase_stage_def stopword_stage_def
        stemming_stage_def thai_stemmer_options universal_Running)
  have on: "stemming (options english_stemmer)" "stemming (options thai_stemmer)"
    "language (options english_stemmer) = js ''en''" "language (options thai_stemmer) = js ''th''"
    by (simp_all add: english_stemmer_options thai_stemmer_options)
  from on en stemming_whitelist [of english_stemmer basic_unicode "JSString (js ''Running'')"]
  have "tokenize basic_unicode english_stemmer (JSString (js ''Running'')) =
      map_option (map (\<lambda>token. stemToken basic_unicode (JSString token)))
        (tokenize basic_unicode (english_stemmer\<lparr>options := (options english_stemmer)\<lparr>stemming := False\<rparr>\<rparr>)
          (JSString (js ''Running'')))"
    by presburger
  then have 1: "tokenize basic_unicode english_stemmer (JSString (js ''Running'')) = Some [js ''run'']"
    unfolding off_en by (simp add: stem_running low)
  from on stemming_whitelist [of thai_stemmer basic_unicode "JSString (js ''Running'')"]
  have "tokenize basic_unicode thai_stemmer (JSString (js ''Running'')) =
      tokenize basic_unicode (thai_stemmer\<lparr>options := (options thai_stemmer)\<lparr>stemming := False\<rparr>\<rparr>)
        (JSString (js ''Running''))"
    by blast
  then have 2: "tokenize basic_unicode thai_stemmer (JSString (js ''Running'')) = Some [js ''Running'']"
    unfolding off_th .
  from 1 2 show ?thesis ..
qed

section \<open>Stemming in the single-file copy\<close>

lemma russian_standalone:
  "standalone_new_Tokenizer basic_unicode russian_stemmer_options =
     Inr \<lparr>options = \<lparr>lowercase = True, removeStopwords = False, customStopwords = [],
                       stemming = True, language = js ''ru'', thaiDictionary = None\<rparr>,
          stopwords = set default_stopwords\<rparr>"
  by (simp add: standalone_new_Tokenizer_def russian_stemmer_options_def no_options_def Let_def)
    (simp add: js_def)

lemma russian_main_options:
  "options (new_Tokenizer basic_unicode (\<lambda>l. None) russian_stemmer_options) =
     \<lparr>lowercase = True, removeStopwords = False, customStopwords = [],
      stemming = True, language = js ''ru'', thaiDictionary = None\<rparr>"
  by (simp add: new_Tokenizer_def russian_stemmer_options_def no_options_def Let_def)
    (simp add: js_def)

lemma universal_running:
  "universalTokenize basic_unicode (js ''running'') = [js ''running'']"
  by (simp add: universal_eval)

lemma ru_not_stemmable: "js ''ru'' \<notin> set stemmable_languages"
  by (simp add: stemmable_languages_def js_def)

text \<open>What the single-file \<open>tokenize\<close> does with stemming enabled: it stems for every
  language but \<open>th\<close>.\<close>

lemma standalone_stemming:
  assumes "stemming (options t)"
  shows "standalone_tokenize env t v =
      (if language (options t) \<noteq> js ''th''
       then map_option (map (\<lambda>token. stemToken env (JSString token)))
              (standalone_tokenize env (t\<lparr>options := (options t)\<lparr>stemming := False\<rparr>\<rparr>) v)
       else standalone_tokenize env (t\<lparr>options := (options t)\<lparr>stemming := False\<rparr>\<rparr>) v)"
proof -
  let ?t = "t\<lparr>options := (options t)\<lparr>stemming := False\<rparr>\<rparr>"
  have same: "standalone_segment env ?t = standalone_segment env t"
    "lowercase_stage env ?t = lowercase_stage env t"
    "stopword_stage env ?t = stopword_stage env t"
    "standalone_stemming_stage env ?t = (\<lambda>tokens. tokens)"
    by (auto simp: standalone_segment_def tokenizeThai_def dictionaryThaiTokenize_def
        lowercase_stage_def stopword_stage_def standalone_stemming_stage_def fun_eq_iff)
  have off: "standalone_tokenize env ?t v =
      (if \<not> truthy v \<or> \<not> is_string v then Some []
       else case v of JSString s \<Rightarrow>
              map_option (\<lambda>tokens. stopword_stage env t (lowercase_stage env t tokens))
                (standalone_segment env t s)
            | _ \<Rightarrow> Some [])"
    unfolding standalone_tokenize_def same by (cases v) simp_all
  show ?thesis
    unfolding off using assms
    by (cases v) (simp_all add: standalone_tokenize_def standalone_stemming_stage_def
        option.map_comp comp_def)
qed

text \<open>
  C6 fails on the single-file copy of \<open>tokenize\<close>. A tokenizer made there with stemming
  enabled for the language \<open>ru\<close>, which is not in the whitelist, stems \<open>running\<close> to \<open>run\<close>:
  its guard is \<open>language !== "th"\<close>. The \<open>tokenize\<close> of \<open>src/tokenizer.js\<close>, given the same
  options, returns the token unchanged.
\<close>

theorem standalone_stems_outside_whitelist:
  "js ''ru'' \<notin> set (map js [''en'', ''es'', ''fr'', ''it'', ''pt'', ''de'', ''nl''])
   \<and> (case standalone_new_Tokenizer basic_unicode russian_stemmer_options of
        Inr t \<Rightarrow> standalone_tokenize basic_unicode t (JSString (js ''running''))
      | Inl e \<Rightarrow> None) = Some [js ''run'']
   \<and> tokenize basic_unicode (new_Tokenizer basic_unicode (\<lambda>l. None) russian_stemmer_options)
        (JSString (js ''running'')) = Some [js ''running'']"
proof (intro conjI)
  show "js ''ru'' \<notin> set (map js [''en'', ''es'', ''fr'', ''it'', ''pt'', ''de'', ''nl''])"
    using ru_not_stemmable by (simp add: stemmable_languages_def)
next
  have ne: "js ''ru'' \<noteq> js ''th''" "js ''running'' \<noteq> []" by (simp_all add: js_def)
  have low: "toLowerCase basic_unicode (js ''running'') = js ''running''"
    by (simp add: basic_unicode_def ascii_lower_def js_def)
  show "(case standalone_new_Tokenizer basic_unicode russian_stemmer_options of
        Inr t \<Rightarrow> standalone_tokenize basic_unicode t (JSString (js ''running''))
      | Inl e \<Rightarrow> None) = Some [js ''run'']"
    unfolding russian_standalone using ne
    by (simp add: standalone_tokenize_def standalone_segment_def lowercase_stage_def
        stopword_stage_def standalone_stemming_stage_def universal_running low stem_running)
  show "tokenize basic_unicode (new_Tokenizer basic_unicode (\<lambda>l. None) russian_stemmer_options)
        (JSString (js ''running'')) = Some [js ''running'']"
    using ne ru_not_stemmable
    by (simp add: tokenize_def segment_def lowercase_stage_def stopword_stage_def
        stemming_stage_def russian_main_options universal_running low)
qed

theorem standalone_stems_outside_whitelist_witness:
  "(case standalone_new_Tokenizer basic_unicode russian_stemmer_options of
        Inr t \<Rightarrow> standalone_tokenize basic_unicode t (JSString (js ''running''))
      | Inl e \<Rightarrow> None) = Some [js ''run'']
   \<and> tokenize basic_unicode (new_Tokenizer basic_unicode (\<lambda>l. None) russian_stemmer_options)
        (JSString (js ''running'')) = Some [js ''running'']"
  using standalone_stems_outside_whitelist by blast

section \<open>The choice of the segmenter\<close>

lemma thai_without_dictionary_options:
  "options thai_without_dictionary =
     \<lparr>lowercase = True, removeStopwords = False, customStopwords = [], stemming = False,
      language = js ''th'', thaiDictionary = None\<rparr>"
  by (simp add: thai_without_dictionary_def new_Tokenizer_def no_options_def Let_def)
    (simp add: js_def)

lemma thai_with_empty_dictionary_options:
  "options thai_with_empty_dictionary =
     \<lparr>lowercase = True, removeStopwords = False, customStopwords = [], stemming = False,
      language = js ''th'', thaiDictionary = Some []\<rparr>"
  by (simp add: thai_with_empty_dictionary_def new_Tokenizer_def no_options_def Let_def)
    (simp add: js_def)

lemma thai_with_dictionary_options:
  "options thai_with_dictionary =
     \<lparr>lowercase = True, removeStopwords = False, customStopwords = [], stemming = False,
      language = js ''th'', thaiDictionary = Some [[0x0E01, 0x0E32]]\<rparr>"
  by (simp add: thai_with_dictionary_def new_Tokenizer_def no_options_def Let_def)
    (simp add: js_def)

lemma dict_while_ka:
  "dict_while [[0x0E01, 0x0E32]] [0x0E01, 0x0E32, 0x20, 0x0E01, 0x0E32, 0x0E01] []
     = Some [[0x0E01, 0x0E32], [0x0E01, 0x0E32], [0x0E01]]"
proof -
  have b1: "dict_body [[0x0E01, 0x0E32]] [0x0E01, 0x0E32, 0x20, 0x0E01, 0x0E32, 0x0E01]
      = ([0x0E01, 0x0E32], [0x0E01, 0x0E32, 0x0E01])"
    by (simp add: dict_body_def longest_scan_def scan_step_def startsWith_def)
  have b2: "dict_body [[0x0E01, 0x0E32]] [0x0E01, 0x0E32, 0x0E01] = ([0x0E01, 0x0E32], [0x0E01])"
    by (simp add: dict_body_def longest_scan_def scan_step_def startsWith_def)
  have b3: "dict_body [[0x0E01, 0x0E32]] [0x0E01] = ([0x0E01], [])"
    by (simp add: dict_body_def longest_scan_def scan_step_def startsWith_def)
  show ?thesis
    by (simp add: dict_while_step b1 b2 b3 dict_while_Nil)
qed

lemma universal_ka: "universalTokenize basic_unicode [0x0E01, 0x0E32] = [[0x0E01, 0x0E32]]"
  by (simp add: universal_eval)

lemma simple_ka: "simpleTokenize [0x0E01, 0x0E32] = [[0x0E01], [0x0E32]]"
  by (simp add: simpleTokenize_def regex_test_def thaiPattern_def thaiVowelPattern_def
      thaiToneMarkPattern_def)

text \<open>
  C1 fails on the code for an absent dictionary. A tokenizer made for the language \<open>th\<close> with
  no dictionary segments the two Thai code units KO KAI, SARA AA with the universal
  pattern, into one token, where \<open>simpleTokenize\<close> cuts them into two; the same tokenizer
  made with an empty dictionary does segment with \<open>simpleTokenize\<close>.
\<close>

theorem thai_without_dictionary_uses_universal:
  "language (options thai_without_dictionary) = js ''th''
   \<and> thaiDictionary (options thai_without_dictionary) = None
   \<and> tokenize basic_unicode thai_without_dictionary (JSString [0x0E01, 0x0E32]) = Some [[0x0E01, 0x0E32]]
   \<and> simpleTokenize [0x0E01, 0x0E32] = [[0x0E01], [0x0E32]]
   \<and> tokenize basic_unicode thai_without_dictionary (JSString [0x0E01, 0x0E32])
       \<noteq> Some (stopword_stage basic_unicode thai_without_dictionary (simpleTokenize [0x0E01, 0x0E32]))
   \<and> tokenize basic_unicode thai_with_empty_dictionary (JSString [0x0E01, 0x0E32])
       = Some (simpleTokenize [0x0E01, 0x0E32])"
proof -
  have tk: "tokenize basic_unicode thai_without_dictionary (JSString [0x0E01, 0x0E32]) = Some [[0x0E01, 0x0E32]]"
    by (simp add: tokenize_def segment_def lowercase_stage_def stopword_stage_def
        stemming_stage_def thai_without_dictionary_options universal_ka)
  have "stopword_stage basic_unicode thai_without_dictionary (simpleTokenize [0x0E01, 0x0E32])
      = [[0x0E01], [0x0E32]]"
    by (simp add: stopword_stage_def thai_without_dictionary_options simple_ka)
  moreover have "tokenize basic_unicode thai_with_empty_dictionary (JSString [0x0E01, 0x0E32])
       = Some (simpleTokenize [0x0E01, 0x0E32])"
    by (simp add: tokenize_def segment_def dictionaryTokenize_def lowercase_stage_def
        stopword_stage_def stemming_stage_def thai_with_empty_dictionary_options)
  ultimately show ?thesis using tk
    by (simp add: thai_without_dictionary_options simple_ka)
qed

theorem thai_without_dictionary_uses_universal_witness:
  "tokenize basic_unicode thai_without_dictionary (JSString [0x0E01, 0x0E32]) = Some [[0x0E01, 0x0E32]]
   \<and> simpleTokenize [0x0E01, 0x0E32] = [[0x0E01], [0x0E32]]
   \<and> tokenize basic_unicode thai_with_empty_dictionary (JSString [0x0E01, 0x0E32])
       = Some (simpleTokenize [0x0E01, 0x0E32])"
  using thai_without_dictionary_uses_universal by blast

lemma thai_stages:
  assumes "language (options t) = js ''th''"
  shows "stemming_stage env t (stopword_stage env t (lowercase_stage env t tokens))
    = stopword_stage env t tokens"
  using assms th_not_stemmable by (simp add: stemming_stage_def lowercase_stage_def)

lemma stopword_stage_Nil: "stopword_stage env t [] = []"
  by (simp add: stopword_stage_def)

lemma universalTokenize_Nil: "universalTokenize env [] = []"
  by (simp add: universalTokenize_def)

lemma simpleTokenize_Nil: "simpleTokenize [] = []"
  by (simp add: simpleTokenize_def)

text \<open>
  How \<open>tokenize\<close> picks the segmenter, as the code stands. For the language \<open>th\<close>: with
  a dictionary that is present but empty it segments with \<open>simpleTokenize\<close>; with no
  dictionary (\<open>null\<close>) it segments with the universal pattern; with a non-empty
  dictionary it runs the longest-match loop. For every other language the dictionary is not
  consulted. (For \<open>th\<close> the only later stage that can change the tokens is the stopword
  filter.)
\<close>

lemma segmenter_choice:
  "(language (options t) = js ''th'' \<and> thaiDictionary (options t) = Some [] \<longrightarrow>
      tokenize env t (JSString s) = Some (stopword_stage env t (simpleTokenize s)))
   \<and> (language (options t) = js ''th'' \<and> thaiDictionary (options t) = None \<longrightarrow>
      tokenize env t (JSString s) = Some (stopword_stage env t (universalTokenize env s)))
   \<and> (language (options t) = js ''th'' \<and> thaiDictionary (options t) = Some d \<and> d \<noteq> [] \<longrightarrow>
      tokenize env t (JSString s) = map_option (stopword_stage env t) (dict_while d s []))
   \<and> (language (options t) \<noteq> js ''th'' \<longrightarrow>
      tokenize env t (JSString s)
        = tokenize env (t\<lparr>options := (options t)\<lparr>thaiDictionary := None\<rparr>\<rparr>) (JSString s))"
proof (intro conjI impI)
  assume a: "language (options t) = js ''th'' \<and> thaiDictionary (options t) = Some []"
  then have "segment env t s = Some (simpleTokenize s)"
    by (simp add: segment_def dictionaryTokenize_def simpleTokenize_Nil)
  with a show "tokenize env t (JSString s) = Some (stopword_stage env t (simpleTokenize s))"
    by (simp add: tokenize_def thai_stages simpleTokenize_Nil stopword_stage_Nil)
next
  assume a: "language (options t) = js ''th'' \<and> thaiDictionary (options t) = None"
  then have "segment env t s = Some (universalTokenize env s)"
    by (simp add: segment_def)
  with a show "tokenize env t (JSString s) = Some (stopword_stage env t (universalTokenize env s))"
    by (simp add: tokenize_def thai_stages universalTokenize_Nil stopword_stage_Nil)
next
  assume a: "language (options t) = js ''th'' \<and> thaiDictionary (options t) = Some d \<and> d \<noteq> []"
  then have "segment env t s = dict_while d s []"
    by (simp add: segment_def dictionaryTokenize_def dict_while_Nil)
  with a show "tokenize env t (JSString s) = map_option (stopword_stage env t) (dict_while d s [])"
    by (cases "s = []") (simp_all add: tokenize_def thai_stages dict_while_Nil stopword_stage_Nil)
next
  let ?t = "t\<lparr>options := (options t)\<lparr>thaiDictionary := None\<rparr>\<rparr>"
  assume a: "language (options t) \<noteq> js ''th''"
  then have "segment env ?t = segment env t" "lowercase_stage env ?t = lowercase_stage env t"
    "stopword_stage env ?t = stopword_stage env t" "stemming_stage env ?t = stemming_stage env t"
    by (auto simp: segment_def lowercase_stage_def stopword_stage_def stemming_stage_def fun_eq_iff)
  then show "tokenize env t (JSString s) = tokenize env ?t (JSString s)"
    by (simp add: tokenize_def)
qed

lemma segmenter_choice_examples:
  "tokenize basic_unicode thai_with_empty_dictionary (JSString [0x0E01, 0x0E32])
     = Some [[0x0E01], [0x0E32]]
   \<and> tokenize basic_unicode thai_without_dictionary (JSString [0x0E01, 0x0E32])
     = Some [[0x0E01, 0x0E32]]
   \<and> tokenize basic_unicode thai_with_dictionary
       (JSString [0x0E01, 0x0E32, 0x20, 0x0E01, 0x0E32, 0x0E01])
     = Some [[0x0E01, 0x0E32], [0x0E01, 0x0E32], [0x0E01]]"
proof (intro conjI)
  have "language (options thai_with_empty_dictionary) = js ''th''
      \<and> thaiDictionary (options thai_with_empty_dictionary) = Some []"
    by (simp add: thai_with_empty_dictionary_options)
  with segmenter_choice [where t = thai_with_empty_dictionary and env = basic_unicode
      and s = "[0x0E01, 0x0E32]" and d = "[]"]
  have "tokenize basic_unicode thai_with_empty_dictionary (JSString [0x0E01, 0x0E32])
      = Some (stopword_stage basic_unicode thai_with_empty_dictionary (simpleTokenize [0x0E01, 0x0E32]))"
    by blast
  then show "tokenize basic_unicode thai_with_empty_dictionary (JSString [0x0E01, 0x0E32])
     = Some [[0x0E01], [0x0E32]]"
    by (simp add: simple_ka stopword_stage_def thai_with_empty_dictionary_options)
next
  have "language (options thai_without_dictionary) = js ''th''
      \<and> thaiDictionary (options thai_without_dictionary) = None"
    by (simp add: thai_without_dictionary_options)
  with segmenter_choice [where t = thai_without_dictionary and env = basic_unicode
      and s = "[0x0E01, 0x0E32]" and d = "[]"]
  have "tokenize basic_unicode thai_without_dictionary (JSString [0x0E01, 0x0E32])
      = Some (stopword_stage basic_unicode thai_without_dictionary
               (universalTokenize basic_unicode [0x0E01, 0x0E32]))"
    by blast
  then show "tokenize basic_unicode thai_without_dictionary (JSString [0x0E01, 0x0E32])
     = Some [[0x0E01, 0x0E32]]"
    by (simp add: universal_ka stopword_stage_def thai_without_dictionary_options)
next
  have "language (options thai_with_dictionary) = js ''th''
      \<and> thaiDictionary (options thai_with_dictionary) = Some [[0x0E01, 0x0E32]]
      \<and> [[0x0E01, 0x0E32]] \<noteq> ([] :: jsstring list)"
    by (simp add: thai_with_dictionary_options)
  with segmenter_choice [where t = thai_with_dictionary and env = basic_unicode
      and s = "[0x0E01, 0x0E32, 0x20, 0x0E01, 0x0E32, 0x0E01]" and d = "[[0x0E01, 0x0E32]]"]
  have "tokenize basic_unicode thai_with_dictionary
         (JSString [0x0E01, 0x0E32, 0x20, 0x0E01, 0x0E32, 0x0E01])
      = map_option (stopword_stage basic_unicode thai_with_dictionary)
          (dict_while [[0x0E01, 0x0E32]] [0x0E01, 0x0E32, 0x20, 0x0E01, 0x0E32, 0x0E01] [])"
    by blast
  then show "tokenize basic_unicode thai_with_dictionary
       (JSString [0x0E01, 0x0E32, 0x20, 0x0E01, 0x0E32, 0x0E01])
     = Some [[0x0E01, 0x0E32], [0x0E01, 0x0E32], [0x0E01]]"
    by (simp add: dict_while_ka stopword_stage_def thai_with_dictionary_options)
qed

section \<open>Token frequencies\<close>

lemma proto_is_inherited: "object_prototype_get (js ''__proto__'') = JSObject"
  by (simp add: object_prototype_get_def object_prototype_methods_def js_def)

lemma count_token_counts:
  assumes "object_prototype_get tok = JSUndefined"
  shows "count_token tok (token_counts pre) = token_counts (pre @ [tok])"
proof -
  from assms proto_is_inherited have ne: "tok \<noteq> js ''__proto__''" by auto
  have v: "or_zero_plus_one (get_property (token_counts pre) tok)
      = JSNumber (int (count_list pre tok) + 1)"
  proof (cases "tok \<in> set pre")
    case True
    then have "count_list pre tok \<noteq> 0" by (simp add: count_list_0_iff)
    with True show ?thesis
      by (simp add: get_property_def token_counts_def or_zero_plus_one_def)
  next
    case False
    then have "count_list pre tok = 0" by (simp add: count_list_0_iff)
    with False assms show ?thesis
      by (simp add: get_property_def token_counts_def or_zero_plus_one_def)
  qed
  show ?thesis
    unfolding count_token_def v using ne
    by (auto simp: set_property_def token_counts_def fun_eq_iff)
qed

lemma fold_count_token:
  assumes "\<forall>tok \<in> set tokens. object_prototype_get tok = JSUndefined"
  shows "fold count_token tokens (token_counts pre) = token_counts (pre @ tokens)"
  using assms
proof (induction tokens arbitrary: pre)
  case Nil
  then show ?case by simp
next
  case (Cons tok tokens)
  then have "fold count_token tokens (token_counts (pre @ [tok])) = token_counts ((pre @ [tok]) @ tokens)"
    by simp
  with Cons.prems show ?case by (simp add: count_token_counts)
qed

text \<open>What \<open>getTokenFrequency\<close> does get right: when no token is the name of a property
  of \<open>Object.prototype\<close>, the object returned holds exactly the counts.\<close>

lemma frequency_counts:
  assumes "tokenize env t v = Some tokens"
    and "\<forall>tok \<in> set tokens. object_prototype_get tok = JSUndefined"
  shows "getTokenFrequency env t v = Some (token_counts tokens)"
proof -
  have "token_counts [] = Map.empty" by (simp add: token_counts_def)
  with fold_count_token[OF assms(2), of "[]"] assms(1) show ?thesis
    by (simp add: getTokenFrequency_def)
qed

lemma universal_constructor:
  "universalTokenize basic_unicode (js ''constructor'') = [js ''constructor'']"
  by (simp add: universal_eval)

lemma tokenize_constructor:
  "tokenize basic_unicode (new_Tokenizer basic_unicode (\<lambda>l. None) no_options)
     (JSString (js ''constructor'')) = Some [js ''constructor'']"
proof -
  have "js ''en'' \<noteq> js ''th''" "js ''constructor'' \<noteq> []" by (simp_all add: js_def)
  moreover have "toLowerCase basic_unicode (js ''constructor'') = js ''constructor''"
    by (simp add: basic_unicode_def ascii_lower_def js_def)
  ultimately show ?thesis
    by (simp add: tokenize_def segment_def lowercase_stage_def stopword_stage_def
        stemming_stage_def default_options universal_constructor)
qed

text \<open>
  C4 fails on the code. For the text \<open>constructor\<close> a tokenizer made with no options
  returns one token, \<open>constructor\<close>; the read \<open>frequency["constructor"]\<close> finds the function
  \<open>Object\<close> on \<open>Object.prototype\<close>, which is truthy, so \<open>+ 1\<close> appends \<open>"1"\<close> to the
  function's text: the value stored is a string, not the count 1.
\<close>

theorem frequency_of_constructor:
  "map_option (\<lambda>frequency. frequency (js ''constructor''))
     (getTokenFrequency basic_unicode (new_Tokenizer basic_unicode (\<lambda>l. None) no_options)
        (JSString (js ''constructor'')))
   = Some (Some (JSString (js ''function Object() { [native code] }1'')))"
proof -
  have ne: "js ''constructor'' \<noteq> js ''__proto__''" by (simp add: js_def)
  have "count_token (js ''constructor'') Map.empty (js ''constructor'')
      = Some (JSString (js ''function Object() { [native code] }1''))"
    using ne by (simp add: count_token_def get_property_def object_prototype_get_def
        or_zero_plus_one_def set_property_def) (simp add: js_def)
  then show ?thesis
    by (simp add: getTokenFrequency_def tokenize_constructor)
qed

end
